theory Spec2Isabelle
  imports Main
begin

section \<open>Data model of package repo (installer.go)\<close>

text \<open>
  The fields of \<open>cfg.Dependency\<close> that installer.go reads or writes. A field left out of
  a Go struct literal has its zero value: the empty string, the nil slice.
\<close>

record Dependency =
  Name :: string
  Reference :: string
  Repository :: string
  VcsType :: string
  Subpackages :: "string list"
  Arch :: "string list"
  Os :: "string list"

text \<open>
  An entry of a lock file, with the fields \<open>Install\<close> projects into a Dependency
  (\<open>v.Name\<close>, \<open>v.Version\<close>, ...). The field names carry the prefix \<open>Lock\<close> where
  they would clash with those of Dependency.
\<close>

record Lock =
  LockName :: string
  Version :: string
  LockRepository :: string
  LockVcsType :: string
  LockSubpackages :: "string list"
  LockArch :: "string list"
  LockOs :: "string list"

record Lockfile =
  Hash :: string
  LockfileImports :: "Lock list"
  LockfileDevImports :: "Lock list"

record Config =
  ConfigName :: string
  Imports :: "Dependency list"
  DevImports :: "Dependency list"

record Installer =
  Force :: bool
  Home :: string
  UseCache :: bool
  UseCacheGopath :: bool
  UseGopath :: bool
  UpdateVendored :: bool
  DeleteUnused :: bool

record MissingPackageHandler =
  destination :: string
  home :: string
  cache :: bool
  cacheGopath :: bool
  useGopath :: bool

text \<open>A Go \<open>error\<close> value, known by its message; \<open>nil\<close> is \<open>None\<close> of \<open>error option\<close>.\<close>

datatype error = Error string

fun errorText :: "error \<Rightarrow> string" where
  "errorText (Error s) = s"

section \<open>Effects\<close>

text \<open>
  Everything the code does besides returning a value is recorded in a trace: the messages
  handed to package msg (format string and arguments), and every call of the version
  control operations \<open>VcsGet\<close> and \<open>VcsUpdate\<close> and of the worker pool, with its
  arguments. The world (file system, network, working copies) is a type parameter
  \<open>'w\<close> that only the operations outside installer.go read and change.
\<close>

datatype event =
    Info string "string list"
  | Debug string "string list"
  | Warn string "string list"
  | Die string "string list"
  | CallVcsGet Dependency string string bool bool bool
  | CallVcsUpdate Dependency string Installer
  | CallConcurrentUpdate "Dependency list" string

record 'w state =
  world :: 'w
  trace :: "event list"

definition emit :: "event \<Rightarrow> 'w state \<Rightarrow> 'w state" where
  "emit e st = st\<lparr>trace := trace st @ [e]\<rparr>"

text \<open>The two methods of a \<open>dependency.MissingPackageHandler\<close>, as the resolver calls them.\<close>

type_synonym 'w callback = "string \<Rightarrow> 'w state \<Rightarrow> (bool \<times> error option) \<times> 'w state"

text \<open>
  What installer.go calls and does not define. Each is a parameter of the model:
  \<^item> \<open>Vendor\<close>: \<open>gpath.Vendor()\<close>, the vendor directory or an error;
  \<^item> \<open>DeDupe\<close>: \<open>(*cfg.Config).DeDupe\<close>, the configuration after de-duplication;
  \<^item> \<open>Stat\<close>: whether \<open>os.Stat\<close> of a path returns a nil error;
  \<^item> \<open>Join\<close>: \<open>filepath.Join\<close> of two elements;
  \<^item> \<open>PathSeparator\<close>: \<open>os.PathSeparator\<close>;
  \<^item> \<open>VcsGet\<close>, \<open>VcsUpdate\<close>: the version control operations, returning their error
    and the world they leave. The Go functions receive a pointer to the Dependency;
    the worker pool only reads the record (section 3 of the specification), so the
    model hands over the value;
  \<^item> \<open>Schedule\<close>: the order in which the worker goroutines happen to take the
    dependencies from the channel;
  \<^item> \<open>NewResolver\<close>, \<open>ResolveAll\<close>: the transitive resolver of package dependency,
    which calls the handler's methods while it walks;
  \<^item> \<open>NormalizeName\<close>: \<open>util.NormalizeName\<close>, repository root and sub-package suffix;
  \<^item> \<open>ConfigHash\<close>: \<open>(*cfg.Config).Hash\<close>.
\<close>

record ('w, 'r) externals =
  Vendor :: "'w \<Rightarrow> string \<times> error option"
  DeDupe :: "Config \<Rightarrow> Config"
  Stat :: "'w \<Rightarrow> string \<Rightarrow> bool"
  Join :: "string \<Rightarrow> string \<Rightarrow> string"
  PathSeparator :: char
  VcsGet :: "Dependency \<Rightarrow> string \<Rightarrow> string \<Rightarrow> bool \<Rightarrow> bool \<Rightarrow> bool \<Rightarrow> 'w \<Rightarrow> error option \<times> 'w"
  VcsUpdate :: "Dependency \<Rightarrow> string \<Rightarrow> Installer \<Rightarrow> 'w \<Rightarrow> error option \<times> 'w"
  Schedule :: "Dependency list \<Rightarrow> Dependency list"
  NewResolver :: "string \<Rightarrow> 'w \<Rightarrow> error + 'r"
  ResolveAll :: "'r \<Rightarrow> 'w callback \<Rightarrow> 'w callback \<Rightarrow> Dependency list \<Rightarrow> 'w state
                 \<Rightarrow> (string list \<times> error option) \<times> 'w state"
  NormalizeName :: "string \<Rightarrow> string \<times> string"
  ConfigHash :: "Config \<Rightarrow> string \<times> error option"

text \<open>A call of a version control operation: the call is recorded, the world changes.\<close>

definition callVcsGet ::
  "('w, 'r) externals \<Rightarrow> Dependency \<Rightarrow> string \<Rightarrow> string \<Rightarrow> bool \<Rightarrow> bool \<Rightarrow> bool
   \<Rightarrow> 'w state \<Rightarrow> error option \<times> 'w state" where
  "callVcsGet ext dep dest hm c cg ug st =
     (case VcsGet ext dep dest hm c cg ug (world st) of
        (err, w) \<Rightarrow> (err, \<lparr>world = w, trace = trace st @ [CallVcsGet dep dest hm c cg ug]\<rparr>))"

definition callVcsUpdate ::
  "('w, 'r) externals \<Rightarrow> Dependency \<Rightarrow> string \<Rightarrow> Installer \<Rightarrow> 'w state
   \<Rightarrow> error option \<times> 'w state" where
  "callVcsUpdate ext dep cwd i st =
     (case VcsUpdate ext dep cwd i (world st) of
        (err, w) \<Rightarrow> (err, \<lparr>world = w, trace = trace st @ [CallVcsUpdate dep cwd i]\<rparr>))"

text \<open>The calls of \<open>VcsGet\<close> (the fetches) and of the worker pool in a trace.\<close>

fun isFetch :: "event \<Rightarrow> bool" where
  "isFetch (CallVcsGet d t hm c cg ug) = True"
| "isFetch e = False"

fun isVcsCall :: "event \<Rightarrow> bool" where
  "isVcsCall (CallVcsGet d t hm c cg ug) = True"
| "isVcsCall (CallVcsUpdate d cwd i) = True"
| "isVcsCall e = False"

fun isPoolCall :: "event \<Rightarrow> bool" where
  "isPoolCall (CallConcurrentUpdate ds cwd) = True"
| "isPoolCall e = False"

definition fetches :: "event list \<Rightarrow> event list" where
  "fetches tr = filter isFetch tr"

definition vcsCalls :: "event list \<Rightarrow> event list" where
  "vcsCalls tr = filter isVcsCall tr"

definition poolCalls :: "event list \<Rightarrow> event list" where
  "poolCalls tr = filter isPoolCall tr"

section \<open>depsFromPackages\<close>

text \<open>
  \<open>depsFromPackages\<close> keeps pointers to the same Dependency in the slice \<open>deps\<close> and in
  the map \<open>seen\<close>, and appends to \<open>seen[rr].Subpackages\<close> through the map. The model has
  an explicit store: a pointer is an index into \<open>store\<close>, \<open>&cfg.Dependency{...}\<close>
  allocates at the end of it, and the result reads the slice through the store.
\<close>

record aggregation =
  store :: "Dependency list"
  seen :: "string \<rightharpoonup> nat"
  deps :: "nat list"

definition newDependency :: "string \<Rightarrow> string list \<Rightarrow> Dependency" where
  "newDependency rr subpkg =
     \<lparr>Name = rr, Reference = [], Repository = [], VcsType = [],
      Subpackages = subpkg, Arch = [], Os = []\<rparr>"

definition appendSubpackage :: "string \<Rightarrow> Dependency \<Rightarrow> Dependency" where
  "appendSubpackage sp d = d\<lparr>Subpackages := Subpackages d @ [sp]\<rparr>"

text \<open>The body of the loop over \<open>pkgs\<close>.\<close>

definition aggregate ::
  "(string \<Rightarrow> string \<times> string) \<Rightarrow> aggregation \<Rightarrow> string \<Rightarrow> aggregation" where
  "aggregate normalizeName a p =
     (case normalizeName p of (rr, sp) \<Rightarrow>
        (case seen a rr of
           None \<Rightarrow>
             (let subpkg = (if sp \<noteq> [] then [sp] else []);
                  dd = length (store a)
              in \<lparr>store = store a @ [newDependency rr subpkg],
                  seen = (seen a)(rr \<mapsto> dd),
                  deps = deps a @ [dd]\<rparr>)
         | Some q \<Rightarrow>
             (if sp \<noteq> []
              then a\<lparr>store := (store a)[q := appendSubpackage sp (store a ! q)]\<rparr>
              else a)))"

definition depsFromPackages ::
  "(string \<Rightarrow> string \<times> string) \<Rightarrow> string list \<Rightarrow> Dependency list" where
  "depsFromPackages normalizeName pkgs =
     (let a = foldl (aggregate normalizeName) \<lparr>store = [], seen = Map.empty, deps = []\<rparr> pkgs
      in map (\<lambda>q. store a ! q) (deps a))"

text \<open>
  The specification's words for the order of the output: the elements of a list in the
  order of their first appearance, each once.
\<close>

fun firstSeen :: "'a list \<Rightarrow> 'a list" where
  "firstSeen [] = []"
| "firstSeen (x # xs) = x # firstSeen (removeAll x xs)"

text \<open>
  The invariant of the loop: the slice holds every allocated pointer in allocation order,
  and the map sends exactly the names of the allocated dependencies to their pointers.
\<close>

definition aggregation_ok :: "aggregation \<Rightarrow> bool" where
  "aggregation_ok a \<longleftrightarrow> deps a = [0..<length (store a)] \<and>
     (\<forall>r q. seen a r = Some q \<longrightarrow> q < length (store a) \<and> Name (store a ! q) = r) \<and>
     (\<forall>q < length (store a). seen a (Name (store a ! q)) = Some q)"

section \<open>MissingPackageHandler\<close>

definition NotFound ::
  "('w, 'r) externals \<Rightarrow> MissingPackageHandler \<Rightarrow> string \<Rightarrow> 'w state
   \<Rightarrow> (bool \<times> error option) \<times> 'w state" where
  "NotFound ext m pkg st =
     (let st1 = emit (Info ''Fetching %s into %s'' [pkg, destination m]) st;
          d = \<lparr>Name = pkg, Reference = [], Repository = [], VcsType = [],
               Subpackages = [], Arch = [], Os = []\<rparr>;
          dest = Join ext (destination m) pkg
      in case callVcsGet ext d dest (home m) (cache m) (cacheGopath m) (useGopath m) st1 of
           (Some err, st2) \<Rightarrow> ((False, Some err), st2)
         | (None, st2) \<Rightarrow> ((True, None), st2))"

definition OnGopath ::
  "MissingPackageHandler \<Rightarrow> string \<Rightarrow> 'w state \<Rightarrow> (bool \<times> error option) \<times> 'w state" where
  "OnGopath m pkg st =
     ((False, None), emit (Info ''OnGopath: Package %s is on the GOPATH.'' [pkg]) st)"

section \<open>Checkout\<close>

fun checkoutImports ::
  "('w, 'r) externals \<Rightarrow> Installer \<Rightarrow> Dependency list \<Rightarrow> string \<Rightarrow> 'w state
   \<Rightarrow> error option \<times> 'w state" where
  "checkoutImports ext i [] dest st = (None, st)"
| "checkoutImports ext i (c # cs) dest st =
     (if Stat ext (world st) (Join ext dest (Name c))
      then checkoutImports ext i cs dest (emit (Debug ''Package %s already found.'' [Name c]) st)
      else
        (let target = Join ext dest (Name c);
             st1 = emit (Info ''Fetching %s into %s'' [Name c, dest]) st
         in case callVcsGet ext c target (Home i) (UseCache i) (UseCacheGopath i) (UseGopath i) st1 of
              (Some err, st2) \<Rightarrow> (Some err, st2)
            | (None, st2) \<Rightarrow> checkoutImports ext i cs dest st2))"

definition Checkout ::
  "('w, 'r) externals \<Rightarrow> Installer \<Rightarrow> Config \<Rightarrow> bool \<Rightarrow> 'w state \<Rightarrow> error option \<times> 'w state" where
  "Checkout ext i conf useDev st =
     (let dest = ''./vendor''
      in case checkoutImports ext i (Imports conf) dest st of
           (Some err, st1) \<Rightarrow> (Some err, st1)
         | (None, st1) \<Rightarrow>
             (if useDev then checkoutImports ext i (DevImports conf) dest st1
              else (None, st1)))"

section \<open>ConcurrentUpdate\<close>

text \<open>
  What a worker goroutine does with a dependency it received from the channel: the update,
  and a warning when the update failed.
\<close>

definition worker ::
  "('w, 'r) externals \<Rightarrow> string \<Rightarrow> Installer \<Rightarrow> 'w state \<Rightarrow> Dependency \<Rightarrow> 'w state" where
  "worker ext cwd i st dep =
     (case callVcsUpdate ext dep cwd i st of
        (Some err, st1) \<Rightarrow>
          emit (Warn (''Update failed for %s: %s'' @ [CHR 0x0A]) [Name dep, errorText err]) st1
      | (None, st1) \<Rightarrow> st1)"

text \<open>
  \<open>concurrentWorkers\<close>, the number of worker goroutines and the capacity of both
  channels, is declared outside installer.go; section 4.3 of the specification has it a
  fixed small constant, at least one.
  The goroutines, the channels and the WaitGroup are not embedded. \<open>ConcurrentUpdate\<close> is
  modelled by its sequential effect: the body of a worker runs on the dependencies in the
  order \<open>Schedule\<close> gives, each update as one step on the world, and the function returns
  the state after the last of them. It has no result value, as in the source.
\<close>

definition ConcurrentUpdate ::
  "('w, 'r) externals \<Rightarrow> Dependency list \<Rightarrow> string \<Rightarrow> Installer \<Rightarrow> 'w state \<Rightarrow> 'w state" where
  "ConcurrentUpdate ext ds cwd i st =
     foldl (worker ext cwd i) (emit (CallConcurrentUpdate ds cwd) st) (Schedule ext ds)"

section \<open>Install\<close>

definition lockDependency :: "Lock \<Rightarrow> Dependency" where
  "lockDependency v =
     \<lparr>Name = LockName v, Reference = Version v, Repository = LockRepository v,
      VcsType = LockVcsType v, Subpackages = LockSubpackages v,
      Arch = LockArch v, Os = LockOs v\<rparr>"

text \<open>The configuration \<open>Install\<close> builds from the lock file, before \<open>DeDupe\<close>.\<close>

definition lockConfig :: "Lockfile \<Rightarrow> Config \<Rightarrow> Config" where
  "lockConfig lock conf =
     \<lparr>ConfigName = ConfigName conf,
      Imports = map lockDependency (LockfileImports lock),
      DevImports = map lockDependency (LockfileDevImports lock)\<rparr>"

definition Install ::
  "('w, 'r) externals \<Rightarrow> Installer \<Rightarrow> Lockfile \<Rightarrow> Config \<Rightarrow> 'w state
   \<Rightarrow> (Config \<times> error option) \<times> 'w state" where
  "Install ext i lock conf st =
     (case Vendor ext (world st) of
        (cwd, Some err) \<Rightarrow> ((conf, Some err), st)
      | (cwd, None) \<Rightarrow>
          (let newConf = DeDupe ext (lockConfig lock conf)
           in if length (Imports newConf) = 0
              then ((newConf, None),
                    emit (Info (''No dependencies found. Nothing installed.'' @ [CHR 0x0A]) []) st)
              else
                (let st1 = ConcurrentUpdate ext (Imports newConf) cwd i st;
                     st2 = ConcurrentUpdate ext (DevImports newConf) cwd i st1
                 in ((newConf, None), st2))))"

section \<open>Update\<close>

definition TrimPrefix :: "string \<Rightarrow> string \<Rightarrow> string" where
  "TrimPrefix s pre = (if take (length pre) s = pre then drop (length pre) s else s)"

definition allPackages ::
  "('w, 'r) externals \<Rightarrow> Dependency list \<Rightarrow> 'r \<Rightarrow> 'w callback \<Rightarrow> 'w callback \<Rightarrow> 'w state
   \<Rightarrow> (string list \<times> error option) \<times> 'w state" where
  "allPackages ext ds res notFound onGopath st =
     (if length ds = 0 then (([], None), st)
      else
        (case Vendor ext (world st) of
           (vdir, Some err) \<Rightarrow> (([], Some err), st)
         | (vdir, None) \<Rightarrow>
             (case ResolveAll ext res notFound onGopath ds st of
                ((ll, Some err), st1) \<Rightarrow> (([], Some err), st1)
              | ((ll, None), st1) \<Rightarrow>
                  ((map (\<lambda>p. TrimPrefix p (vdir @ [PathSeparator ext])) ll, None), st1))))"

text \<open>
  Modelled from the spec: \<open>msg.Die\<close> is not under src/. Section 7 of the specification has
  the two failures that \<open>Update\<close> hands to it stop the entire call, so a call of
  \<open>msg.Die\<close> ends the run: the message is recorded and the outcome is \<open>Exited\<close>, with
  nothing run after it.
\<close>

datatype 'a outcome = Exited | Returned 'a

text \<open>
  Modelled from the spec: \<open>cfg.NewLockfile\<close> is not under src/. Section 3 has the lock
  record hold the list of dependencies and the hash of the configuration; each entry
  carries the fields that \<open>Install\<close> reads back, the version being the dependency's
  reference.
\<close>

definition dependencyLock :: "Dependency \<Rightarrow> Lock" where
  "dependencyLock d =
     \<lparr>LockName = Name d, Version = Reference d, LockRepository = Repository d,
      LockVcsType = VcsType d, LockSubpackages = Subpackages d,
      LockArch = Arch d, LockOs = Os d\<rparr>"

definition NewLockfile :: "Dependency list \<Rightarrow> string \<Rightarrow> Lockfile" where
  "NewLockfile ds hash =
     \<lparr>Hash = hash, LockfileImports = map dependencyLock ds, LockfileDevImports = []\<rparr>"

definition updateHandler :: "('w, 'r) externals \<Rightarrow> Installer \<Rightarrow> MissingPackageHandler" where
  "updateHandler ext i =
     \<lparr>destination = Join ext ''.'' ''vendor'', home = Home i, cache = UseCache i,
      cacheGopath = UseCacheGopath i, useGopath = UseGopath i\<rparr>"

definition Update ::
  "('w, 'r) externals \<Rightarrow> Installer \<Rightarrow> Config \<Rightarrow> 'w state
   \<Rightarrow> (Lockfile option \<times> error option) outcome \<times> 'w state" where
  "Update ext i conf st =
     (let base = ''.'';
          m = updateHandler ext i
      in case NewResolver ext base (world st) of
           Inl err \<Rightarrow>
             (Exited, emit (Die ''Failed to create a resolver: %s'' [errorText err]) st)
         | Inr res \<Rightarrow>
             (let st1 = emit (Info ''Resolving imports'' []) st
              in case allPackages ext (Imports conf) res (NotFound ext m) (OnGopath m) st1 of
                   ((packages, Some err), st2) \<Rightarrow>
                     (Exited,
                      emit (Die ''Failed to retrieve a list of dependencies: %s'' [errorText err]) st2)
                 | ((packages, None), st2) \<Rightarrow>
                     (let st3 = emit (Warn ''devImports not resolved.'' []) st2;
                          ds = depsFromPackages (NormalizeName ext) packages;
                          st4 = ConcurrentUpdate ext ds base i st3
                      in case ConfigHash ext conf of
                           (hash, Some err) \<Rightarrow> (Returned (None, Some err), st4)
                         | (hash, None) \<Rightarrow>
                             (Returned (Some (NewLockfile ds hash), None), st4))))"

section \<open>Specification-level notions and an example environment\<close>

text \<open>
  The messages of a trace, and what the specification says of a failing update: the
  updates that fail when the dependencies are updated in the given order from the world
  \<open>w\<close>, each with its error, the world after these updates, and the warning that
  records one failure.
\<close>

fun isMessage :: "event \<Rightarrow> bool" where
  "isMessage (Info f as) = True"
| "isMessage (Debug f as) = True"
| "isMessage (Warn f as) = True"
| "isMessage (Die f as) = True"
| "isMessage e = False"

definition messages :: "event list \<Rightarrow> event list" where
  "messages tr = filter isMessage tr"

fun updateFailures ::
  "('w, 'r) externals \<Rightarrow> string \<Rightarrow> Installer \<Rightarrow> 'w \<Rightarrow> Dependency list \<Rightarrow> (Dependency \<times> error) list" where
  "updateFailures ext cwd i w [] = []"
| "updateFailures ext cwd i w (d # ds) =
     (case VcsUpdate ext d cwd i w of
        (None, w') \<Rightarrow> updateFailures ext cwd i w' ds
      | (Some err, w') \<Rightarrow> (d, err) # updateFailures ext cwd i w' ds)"

fun worldAfterUpdates ::
  "('w, 'r) externals \<Rightarrow> string \<Rightarrow> Installer \<Rightarrow> 'w \<Rightarrow> Dependency list \<Rightarrow> 'w" where
  "worldAfterUpdates ext cwd i w [] = w"
| "worldAfterUpdates ext cwd i w (d # ds) =
     worldAfterUpdates ext cwd i (snd (VcsUpdate ext d cwd i w)) ds"

fun updateWarning :: "Dependency \<times> error \<Rightarrow> event" where
  "updateWarning (d, err) =
     Warn (''Update failed for %s: %s'' @ [CHR 0x0A]) [Name d, errorText err]"

text \<open>
  The specification's words for the sub-package list of the dependency of root \<open>r\<close>: the
  non-empty suffixes of the paths of that root, in input order, repetitions kept.
\<close>

definition suffixesOf :: "(string \<Rightarrow> string \<times> string) \<Rightarrow> string \<Rightarrow> string list \<Rightarrow> string list" where
  "suffixesOf n r pkgs =
     filter (\<lambda>sp. sp \<noteq> []) (map (snd \<circ> n) (filter (\<lambda>p. fst (n p) = r) pkgs))"

text \<open>A dependency already in the store, after the suffixes of further paths were appended.\<close>

definition grow :: "(string \<Rightarrow> string \<times> string) \<Rightarrow> string list \<Rightarrow> Dependency \<Rightarrow> Dependency" where
  "grow n pkgs d = d\<lparr>Subpackages := Subpackages d @ suffixesOf n (Name d) pkgs\<rparr>"

text \<open>
  Modelled from the spec: \<open>VcsGet\<close> is not under src/. Section 6 of the specification
  gives its contract: it creates a working copy at the target directory, and a directory
  of the vendor tree that exists stays. When the call returns no error, the target
  exists afterwards, and so does every path that existed before.
\<close>

definition fetchCreatesTarget :: "('w, 'r) externals \<Rightarrow> bool" where
  "fetchCreatesTarget ext \<longleftrightarrow>
     (\<forall>d t hm c cg ug w w'.
        VcsGet ext d t hm c cg ug w = (None, w') \<longrightarrow>
          Stat ext w' t \<and> (\<forall>p. Stat ext w p \<longrightarrow> Stat ext w' p))"

text \<open>
  Modelled from the spec: \<open>util.NormalizeName\<close> is not under src/. Section 8 of the
  specification fixes its value on these paths: \<open>example.com/a/sub1\<close> and
  \<open>example.com/a/sub2\<close> have the root \<open>example.com/a\<close> and the suffixes \<open>sub1\<close> and
  \<open>sub2\<close>, and a path with no sub-package suffix is its own root. Used for concrete
  runs only; every general statement takes the normalizer as a parameter.
\<close>

definition specNormalizeName :: "string \<Rightarrow> string \<times> string" where
  "specNormalizeName p =
     (if p = ''example.com/a/sub1'' then (''example.com/a'', ''sub1'')
      else if p = ''example.com/a/sub2'' then (''example.com/a'', ''sub2'')
      else (p, []))"

text \<open>
  An environment for concrete runs. The world is the list of the directories that exist;
  fetching creates the target, and both version control operations fail on the
  dependency named \<open>example.com/broken\<close>. \<open>demoJoin\<close> joins two elements with a
  slash and drops a leading \<open>./\<close>, which is what \<open>filepath.Join\<close> returns on the
  paths of these runs. The resolver walks the declared dependencies
  and asks the handler for each one whose directory under \<open>vendor\<close> is missing.
\<close>

definition demoJoin :: "string \<Rightarrow> string \<Rightarrow> string" where
  "demoJoin a b = (let p = a @ ''/'' @ b in if take 2 p = ''./'' then drop 2 p else p)"

fun demoResolveAll ::
  "unit \<Rightarrow> string list callback \<Rightarrow> string list callback \<Rightarrow> Dependency list
   \<Rightarrow> string list state \<Rightarrow> (string list \<times> error option) \<times> string list state" where
  "demoResolveAll r notFound onGopath [] st = (([], None), st)"
| "demoResolveAll r notFound onGopath (d # ds) st =
     (case (if (''vendor/'' @ Name d) \<in> set (world st) then ((True, None), st)
            else notFound (Name d) st) of
        ((h, Some err), st1) \<Rightarrow> (([], Some err), st1)
      | ((h, None), st1) \<Rightarrow>
          (case demoResolveAll r notFound onGopath ds st1 of
             ((ps, e), st2) \<Rightarrow> ((Name d # ps, e), st2)))"

definition demoExt :: "(string list, unit) externals" where
  "demoExt =
     \<lparr>Vendor = (\<lambda>w. (''vendor'', None)),
      DeDupe = (\<lambda>c. c\<lparr>Imports := remdups (Imports c), DevImports := remdups (DevImports c)\<rparr>),
      Stat = (\<lambda>w p. p \<in> set w),
      Join = demoJoin,
      PathSeparator = CHR ''/'',
      VcsGet = (\<lambda>d t hm c cg ug w.
                 if Name d = ''example.com/broken'' then (Some (Error ''fetch failed''), w)
                 else (None, t # w)),
      VcsUpdate = (\<lambda>d cwd i w.
                 if Name d = ''example.com/broken'' then (Some (Error ''update failed''), w)
                 else (None, w)),
      Schedule = (\<lambda>ds. ds),
      NewResolver = (\<lambda>b w. Inr ()),
      ResolveAll = demoResolveAll,
      NormalizeName = specNormalizeName,
      ConfigHash = (\<lambda>c. (ConfigName c, None))\<rparr>"

text \<open>The same environment with a \<open>gpath.Vendor\<close>, or a \<open>NewResolver\<close>, that fails.\<close>

definition noVendorExt :: "(string list, unit) externals" where
  "noVendorExt = demoExt\<lparr>Vendor := (\<lambda>w. ([], Some (Error ''no vendor directory'')))\<rparr>"

definition noResolverExt :: "(string list, unit) externals" where
  "noResolverExt = demoExt\<lparr>NewResolver := (\<lambda>b w. Inl (Error ''no resolver''))\<rparr>"

text \<open>The same environment with a \<open>VcsUpdate\<close> that fails on every dependency.\<close>

definition staleExt :: "(string list, unit) externals" where
  "staleExt = demoExt\<lparr>VcsUpdate := (\<lambda>d cwd i w. (Some (Error ''update failed''), w))\<rparr>"

definition emptyLockfile :: Lockfile where
  "emptyLockfile = \<lparr>Hash = [], LockfileImports = [], LockfileDevImports = []\<rparr>"

definition demoInstaller :: Installer where
  "demoInstaller =
     \<lparr>Force = False, Home = ''/home/glide'', UseCache = False, UseCacheGopath = False,
      UseGopath = False, UpdateVendored = False, DeleteUnused = False\<rparr>"


definition demoConfig :: Config where
  "demoConfig =
     \<lparr>ConfigName = ''example.com/app'',
      Imports = [newDependency ''example.com/a/sub1'' [], newDependency ''example.com/b'' []],
      DevImports = [newDependency ''example.com/c'' []]\<rparr>"

definition emptyState :: "string list state" where
  "emptyState = \<lparr>world = [], trace = []\<rparr>"

definition demoLockfile :: Lockfile where
  "demoLockfile =
     \<lparr>Hash = ''0123'',
      LockfileImports =
        [\<lparr>LockName = ''example.com/a'', Version = ''v1.0.0'', LockRepository = [], LockVcsType = [],
          LockSubpackages = [''sub1''], LockArch = [], LockOs = []\<rparr>,
         \<lparr>LockName = ''example.com/broken'', Version = ''v2.0.0'', LockRepository = [],
          LockVcsType = [], LockSubpackages = [], LockArch = [], LockOs = []\<rparr>],
      LockfileDevImports = []\<rparr>"

definition brokenConfig :: Config where
  "brokenConfig =
     \<lparr>ConfigName = ''example.com/app'',
      Imports = [newDependency ''example.com/broken'' []],
      DevImports = []\<rparr>"

section \<open>The aggregator: one dependency per repository root\<close>

lemma ok_seen_iff: "aggregation_ok a \<Longrightarrow> (seen a r = None) = (r \<notin> set (map Name (store a)))"
proof
  assume w: "aggregation_ok a" and n: "seen a r = None"
  show "r \<notin> set (map Name (store a))"
  proof
    assume "r \<in> set (map Name (store a))"
    then obtain q where "q < length (store a)" "Name (store a ! q) = r"
      by (auto simp: in_set_conv_nth)
    with w have "seen a r = Some q" by (auto simp: aggregation_ok_def)
    with n show False by simp
  qed
next
  assume w: "aggregation_ok a" and n: "r \<notin> set (map Name (store a))"
  show "seen a r = None"
  proof (cases "seen a r")
    case None then show ?thesis .
  next
    case (Some q)
    with w have "q < length (store a)" "Name (store a ! q) = r" by (auto simp: aggregation_ok_def)
    then have "r \<in> set (map Name (store a))"
      using nth_mem[of q "store a"] by force
    with n show ?thesis by simp
  qed
qed

lemma Name_appendSubpackage [simp]: "Name (appendSubpackage sp d) = Name d"
  by (simp add: appendSubpackage_def)

lemma Reference_appendSubpackage [simp]: "Reference (appendSubpackage sp d) = Reference d"
  by (simp add: appendSubpackage_def)

lemma aggregate_unseen:
  "n p = (rr, sp) \<Longrightarrow> seen a rr = None \<Longrightarrow>
   aggregate n a p =
     \<lparr>store = store a @ [newDependency rr (if sp \<noteq> [] then [sp] else [])],
      seen = (seen a)(rr \<mapsto> length (store a)),
      deps = deps a @ [length (store a)]\<rparr>"
  by (simp add: aggregate_def Let_def)

lemma aggregate_seen:
  "n p = (rr, sp) \<Longrightarrow> seen a rr = Some q \<Longrightarrow>
   aggregate n a p =
     (if sp \<noteq> [] then a\<lparr>store := (store a)[q := appendSubpackage sp (store a ! q)]\<rparr> else a)"
  by (simp add: aggregate_def)

lemma Name_nth_update [simp]:
  "Name (xs[q := appendSubpackage sp (xs ! q)] ! k) = Name (xs ! k)"
  by (cases "q = k"; cases "q < length xs") (simp_all add: not_less list_update_beyond)

lemma map_Name_update:
  "map Name (xs[q := appendSubpackage sp (xs ! q)]) = map Name xs"
  by (rule nth_equalityI) simp_all

lemma ok_aggregate:
  assumes "aggregation_ok a"
  shows "aggregation_ok (aggregate n a p)"
proof -
  obtain rr sp where n: "n p = (rr, sp)" by (cases "n p")
  show ?thesis
  proof (cases "seen a rr")
    case None
    have fresh: "\<forall>q < length (store a). Name (store a ! q) \<noteq> rr"
      using assms None by (auto simp: aggregation_ok_def)
    have e: "aggregate n a p =
      \<lparr>store = store a @ [newDependency rr (if sp \<noteq> [] then [sp] else [])],
       seen = (seen a)(rr \<mapsto> length (store a)),
       deps = deps a @ [length (store a)]\<rparr>"
      using n None by (rule aggregate_unseen)
    show ?thesis using assms None fresh
      unfolding e aggregation_ok_def
      by (auto simp: nth_append newDependency_def less_Suc_eq)
  next
    case (Some q)
    have e: "aggregate n a p =
      (if sp \<noteq> [] then a\<lparr>store := (store a)[q := appendSubpackage sp (store a ! q)]\<rparr> else a)"
      using n Some by (rule aggregate_seen)
    show ?thesis using assms
      unfolding e aggregation_ok_def
      by auto
  qed
qed

lemma names_aggregate:
  assumes "aggregation_ok a"
  shows "map Name (store (aggregate n a p)) =
         map Name (store a) @
           (if fst (n p) \<in> set (map Name (store a)) then [] else [fst (n p)])"
proof -
  obtain rr sp where n: "n p = (rr, sp)" by (cases "n p")
  show ?thesis
  proof (cases "seen a rr")
    case None
    then show ?thesis using ok_seen_iff[OF assms, of rr]
      by (simp add: aggregate_unseen[of n p rr sp a] n newDependency_def)
  next
    case (Some q)
    then show ?thesis using ok_seen_iff[OF assms, of rr]
      by (simp add: aggregate_seen[of n p rr sp a q] n map_Name_update)
  qed
qed

lemma removeAll_filter:
  "removeAll r (filter P xs) = filter (\<lambda>x. x \<noteq> r \<and> P x) xs"
  by (induction xs) auto

lemma names_foldl:
  "aggregation_ok a \<Longrightarrow>
   map Name (store (foldl (aggregate n) a pkgs)) =
   map Name (store a) @
     firstSeen (filter (\<lambda>r. r \<notin> set (map Name (store a))) (map (fst \<circ> n) pkgs))"
proof (induction pkgs arbitrary: a)
  case Nil
  then show ?case by simp
next
  case (Cons p ps)
  have w: "aggregation_ok (aggregate n a p)" by (rule ok_aggregate[OF Cons.prems])
  show ?case
  proof (cases "fst (n p) \<in> set (map Name (store a))")
    case True
    then show ?thesis
      using Cons.IH[OF w] names_aggregate[OF Cons.prems, of n p] by simp
  next
    case False
    then show ?thesis
      using Cons.IH[OF w] names_aggregate[OF Cons.prems, of n p]
      by (simp add: removeAll_filter)
  qed
qed

lemma ok_foldl: "aggregation_ok a \<Longrightarrow> aggregation_ok (foldl (aggregate n) a pkgs)"
  by (induction pkgs arbitrary: a) (simp_all add: ok_aggregate)

lemma ok_init: "aggregation_ok \<lparr>store = [], seen = Map.empty, deps = []\<rparr>"
  by (simp add: aggregation_ok_def)

lemma depsFromPackages_store:
  "depsFromPackages n pkgs =
   store (foldl (aggregate n) \<lparr>store = [], seen = Map.empty, deps = []\<rparr> pkgs)"
proof -
  let ?a = "foldl (aggregate n) \<lparr>store = [], seen = Map.empty, deps = []\<rparr> pkgs"
  have "aggregation_ok ?a" by (rule ok_foldl[OF ok_init])
  then have "deps ?a = [0..<length (store ?a)]" by (simp add: aggregation_ok_def)
  then show ?thesis by (simp add: depsFromPackages_def Let_def map_nth)
qed

lemma distinct_firstSeen: "distinct (firstSeen xs)"
  and set_firstSeen: "set (firstSeen xs) = set xs"
  by (induction xs rule: firstSeen.induct) auto

lemma suffixesOf_Nil [simp]: "suffixesOf n r [] = []"
  by (simp add: suffixesOf_def)

lemma suffixesOf_Cons:
  "suffixesOf n r (p # ps) =
     (if fst (n p) = r \<and> snd (n p) \<noteq> [] then [snd (n p)] else []) @ suffixesOf n r ps"
  by (simp add: suffixesOf_def)

lemma grow_Nil [simp]: "grow n [] d = d"
  by (simp add: grow_def)

lemma Name_grow [simp]: "Name (grow n ps d) = Name d"
  by (simp add: grow_def)

lemma grow_other: "fst (n p) \<noteq> Name d \<Longrightarrow> grow n (p # ps) d = grow n ps d"
  by (simp add: grow_def suffixesOf_Cons)

lemma grow_same:
  "n p = (rr, sp) \<Longrightarrow> Name d = rr \<Longrightarrow>
   grow n (p # ps) d = grow n ps (if sp \<noteq> [] then appendSubpackage sp d else d)"
  by (simp add: grow_def suffixesOf_Cons appendSubpackage_def)

lemma grow_new:
  "n p = (rr, sp) \<Longrightarrow>
   grow n ps (newDependency rr (if sp \<noteq> [] then [sp] else [])) =
   newDependency rr (suffixesOf n rr (p # ps))"
  by (simp add: grow_def suffixesOf_Cons newDependency_def)

lemma store_foldl:
  "aggregation_ok a \<Longrightarrow>
   store (foldl (aggregate n) a pkgs) =
   map (grow n pkgs) (store a) @
   map (\<lambda>r. newDependency r (suffixesOf n r pkgs))
     (firstSeen (filter (\<lambda>r. r \<notin> set (map Name (store a))) (map (fst \<circ> n) pkgs)))"
proof (induction pkgs arbitrary: a)
  case Nil
  then show ?case by (simp add: map_idI)
next
  case (Cons p ps)
  obtain rr sp where n: "n p = (rr, sp)" by (cases "n p")
  have w: "aggregation_ok (aggregate n a p)" by (rule ok_aggregate[OF Cons.prems])
  let ?S = "set (map Name (store a))"
  show ?case
  proof (cases "seen a rr")
    case None
    have e: "aggregate n a p =
      \<lparr>store = store a @ [newDependency rr (if sp \<noteq> [] then [sp] else [])],
       seen = (seen a)(rr \<mapsto> length (store a)),
       deps = deps a @ [length (store a)]\<rparr>"
      using n None by (rule aggregate_unseen)
    have notin: "rr \<notin> ?S" using ok_seen_iff[OF Cons.prems, of rr] None by simp
    have old: "map (grow n ps) (store a) = map (grow n (p # ps)) (store a)"
    proof (intro map_cong refl)
      fix x assume "x \<in> set (store a)"
      then have "fst (n p) \<noteq> Name x" using notin n by auto
      then show "grow n ps x = grow n (p # ps) x" by (simp add: grow_other)
    qed
    let ?rest = "firstSeen (filter (\<lambda>x. x \<noteq> rr \<and> x \<notin> ?S) (map (fst \<circ> n) ps))"
    have "rr \<notin> set ?rest" by (simp add: set_firstSeen)
    then have new: "map (\<lambda>r. newDependency r (suffixesOf n r ps)) ?rest =
               map (\<lambda>r. newDependency r (suffixesOf n r (p # ps))) ?rest"
      using n by (intro map_cong refl) (auto simp: suffixesOf_Cons)
    have names: "set (map Name (store (aggregate n a p))) = insert rr ?S"
      unfolding e by (simp add: newDependency_def)
    have flt: "filter (\<lambda>r. r \<notin> set (map Name (store (aggregate n a p)))) (map (fst \<circ> n) ps)
          = filter (\<lambda>x. x \<noteq> rr \<and> x \<notin> ?S) (map (fst \<circ> n) ps)"
      unfolding names by (rule filter_cong) auto
    have fs: "firstSeen (filter (\<lambda>r. r \<notin> ?S) (map (fst \<circ> n) (p # ps))) = rr # ?rest"
      using notin n by (simp add: removeAll_filter)
    have grown: "map (grow n ps) (store (aggregate n a p)) =
          map (grow n (p # ps)) (store a) @ [newDependency rr (suffixesOf n rr (p # ps))]"
      unfolding e using old grow_new[of n p rr sp ps] n by simp
    have "store (foldl (aggregate n) a (p # ps)) =
          map (grow n ps) (store (aggregate n a p)) @
          map (\<lambda>r. newDependency r (suffixesOf n r ps)) ?rest"
      using Cons.IH[OF w] unfolding flt by simp
    also have "\<dots> = (map (grow n (p # ps)) (store a) @ [newDependency rr (suffixesOf n rr (p # ps))]) @
          map (\<lambda>r. newDependency r (suffixesOf n r (p # ps))) ?rest"
      by (simp only: grown new)
    also have "\<dots> = map (grow n (p # ps)) (store a) @
          map (\<lambda>r. newDependency r (suffixesOf n r (p # ps))) (rr # ?rest)"
      by simp
    finally show ?thesis unfolding fs .
  next
    case (Some q)
    have e: "aggregate n a p =
      (if sp \<noteq> [] then a\<lparr>store := (store a)[q := appendSubpackage sp (store a ! q)]\<rparr> else a)"
      using n Some by (rule aggregate_seen)
    have q: "q < length (store a)" "Name (store a ! q) = rr"
      using Cons.prems Some by (auto simp: aggregation_ok_def)
    have uniq: "\<And>k. k < length (store a) \<Longrightarrow> Name (store a ! k) = rr \<Longrightarrow> k = q"
      using Cons.prems Some by (auto simp: aggregation_ok_def)
    have isin: "rr \<in> ?S" using ok_seen_iff[OF Cons.prems, of rr] Some by simp
    have names: "map Name (store (aggregate n a p)) = map Name (store a)"
      unfolding e by (simp add: map_Name_update)
    have old: "map (grow n ps) (store (aggregate n a p)) = map (grow n (p # ps)) (store a)"
    proof (rule nth_equalityI)
      show "length (map (grow n ps) (store (aggregate n a p))) = length (map (grow n (p # ps)) (store a))"
        unfolding e by simp
    next
      fix k assume "k < length (map (grow n ps) (store (aggregate n a p)))"
      then have k: "k < length (store a)" unfolding e by (simp split: if_splits)
      show "map (grow n ps) (store (aggregate n a p)) ! k = map (grow n (p # ps)) (store a) ! k"
      proof (cases "k = q")
        case True
        then show ?thesis using k q n unfolding e
          by (simp add: grow_same[of n p rr sp])
      next
        case False
        then have "Name (store a ! k) \<noteq> rr" using uniq[OF k] by blast
        then show ?thesis using k False n unfolding e
          by (simp add: grow_other)
      qed
    qed
    have rest: "\<And>r. r \<in> set (filter (\<lambda>r. r \<notin> ?S) (map (fst \<circ> n) ps)) \<Longrightarrow>
                suffixesOf n r (p # ps) = suffixesOf n r ps"
      using isin n by (force simp: suffixesOf_Cons)
    have new: "map (\<lambda>r. newDependency r (suffixesOf n r ps))
                 (firstSeen (filter (\<lambda>r. r \<notin> ?S) (map (fst \<circ> n) ps))) =
               map (\<lambda>r. newDependency r (suffixesOf n r (p # ps)))
                 (firstSeen (filter (\<lambda>r. r \<notin> ?S) (map (fst \<circ> n) ps)))"
      by (intro map_cong refl) (simp add: set_firstSeen rest del: set_filter)
    have fs: "firstSeen (filter (\<lambda>r. r \<notin> ?S) (map (fst \<circ> n) (p # ps))) =
              firstSeen (filter (\<lambda>r. r \<notin> ?S) (map (fst \<circ> n) ps))"
      using isin n by simp
    have "store (foldl (aggregate n) a (p # ps)) =
          map (grow n ps) (store (aggregate n a p)) @
          map (\<lambda>r. newDependency r (suffixesOf n r ps))
            (firstSeen (filter (\<lambda>r. r \<notin> ?S) (map (fst \<circ> n) ps)))"
      by (simp only: foldl_Cons Cons.IH[OF w] names)
    then show ?thesis by (simp only: old new fs)
  qed
qed

lemma depsFromPackages_eq:
  "depsFromPackages n pkgs =
   map (\<lambda>r. newDependency r (suffixesOf n r pkgs)) (firstSeen (map (fst \<circ> n) pkgs))"
  using store_foldl[OF ok_init, of n pkgs] by (simp add: depsFromPackages_store)

text \<open>
  Claim C1. For every list of package paths, the names of the dependencies that
  \<open>depsFromPackages\<close> returns are the repository roots of the paths (as the name
  normalizer computes them) in the order of their first appearance: every root of the
  input is the name of exactly one dependency of the output.
\<close>

theorem depsFromPackages_one_per_root:
  "map Name (depsFromPackages n pkgs) = firstSeen (map (fst \<circ> n) pkgs)
   \<and> distinct (map Name (depsFromPackages n pkgs))
   \<and> set (map Name (depsFromPackages n pkgs)) = fst ` n ` set pkgs"
proof -
  have e: "map Name (depsFromPackages n pkgs) = firstSeen (map (fst \<circ> n) pkgs)"
    using names_foldl[OF ok_init, of n pkgs]
    by (simp add: depsFromPackages_store)
  show ?thesis unfolding e by (simp add: distinct_firstSeen set_firstSeen image_image)
qed

text \<open>
  Claim C3. The aggregator appends sub-package suffixes without de-duplication: the
  dependency of a root carries every non-empty suffix of the paths of that root, in input
  order, repetitions kept. For a normalizer that sends \<open>example.com/a/sub1\<close> and
  \<open>example.com/a/sub2\<close> to the root \<open>example.com/a\<close> with the suffixes \<open>sub1\<close> and
  \<open>sub2\<close>, the input \<open>[example.com/a/sub1, example.com/a/sub2, example.com/a/sub1]\<close>
  gives the single dependency \<open>example.com/a\<close> with the sub-packages
  \<open>[sub1, sub2, sub1]\<close>.
\<close>

theorem depsFromPackages_keeps_duplicates:
  "depsFromPackages n pkgs =
     map (\<lambda>r. newDependency r (suffixesOf n r pkgs)) (firstSeen (map (fst \<circ> n) pkgs))
   \<and> (n ''example.com/a/sub1'' = (''example.com/a'', ''sub1'') \<and>
      n ''example.com/a/sub2'' = (''example.com/a'', ''sub2'') \<longrightarrow>
      depsFromPackages n [''example.com/a/sub1'', ''example.com/a/sub2'', ''example.com/a/sub1''] =
        [\<lparr>Name = ''example.com/a'', Reference = [], Repository = [], VcsType = [],
          Subpackages = [''sub1'', ''sub2'', ''sub1''], Arch = [], Os = []\<rparr>])"
proof (intro conjI impI)
  show "depsFromPackages n pkgs =
     map (\<lambda>r. newDependency r (suffixesOf n r pkgs)) (firstSeen (map (fst \<circ> n) pkgs))"
    by (rule depsFromPackages_eq)
next
  assume a: "n ''example.com/a/sub1'' = (''example.com/a'', ''sub1'') \<and>
      n ''example.com/a/sub2'' = (''example.com/a'', ''sub2'')"
  then show "depsFromPackages n [''example.com/a/sub1'', ''example.com/a/sub2'', ''example.com/a/sub1''] =
        [\<lparr>Name = ''example.com/a'', Reference = [], Repository = [], VcsType = [],
          Subpackages = [''sub1'', ''sub2'', ''sub1''], Arch = [], Os = []\<rparr>]"
    by (simp add: depsFromPackages_eq suffixesOf_def newDependency_def)
qed

theorem depsFromPackages_keeps_duplicates_witness:
  "specNormalizeName ''example.com/a/sub1'' = (''example.com/a'', ''sub1'') \<and>
   specNormalizeName ''example.com/a/sub2'' = (''example.com/a'', ''sub2'') \<and>
   depsFromPackages specNormalizeName
     [''example.com/a/sub1'', ''example.com/a/sub2'', ''example.com/a/sub1''] =
     [\<lparr>Name = ''example.com/a'', Reference = [], Repository = [], VcsType = [],
       Subpackages = [''sub1'', ''sub2'', ''sub1''], Arch = [], Os = []\<rparr>]"
proof -
  have h: "specNormalizeName ''example.com/a/sub1'' = (''example.com/a'', ''sub1'') \<and>
           specNormalizeName ''example.com/a/sub2'' = (''example.com/a'', ''sub2'')"
    by (simp add: specNormalizeName_def)
  from depsFromPackages_keeps_duplicates[of specNormalizeName "[]"] h show ?thesis by blast
qed

section \<open>Traces\<close>

lemma trace_emit [simp]: "trace (emit e st) = trace st @ [e]"
  and world_emit [simp]: "world (emit e st) = world st"
  by (simp_all add: emit_def)

lemma trace_worker:
  "trace (worker ext cwd i st dep) =
     trace st @ CallVcsUpdate dep cwd i #
       (case fst (VcsUpdate ext dep cwd i (world st)) of
          None \<Rightarrow> []
        | Some err \<Rightarrow> [Warn (''Update failed for %s: %s'' @ [CHR 0x0A]) [Name dep, errorText err]])"
  by (simp add: worker_def callVcsUpdate_def split: prod.splits option.splits)

lemma poolCalls_append [simp]: "poolCalls (xs @ ys) = poolCalls xs @ poolCalls ys"
  by (simp add: poolCalls_def)

lemma fetches_append [simp]: "fetches (xs @ ys) = fetches xs @ fetches ys"
  by (simp add: fetches_def)

lemma vcsCalls_append [simp]: "vcsCalls (xs @ ys) = vcsCalls xs @ vcsCalls ys"
  by (simp add: vcsCalls_def)

lemma fetches_simps [simp]:
  "fetches [] = []"
  "fetches (Info f as # tr) = fetches tr"
  "fetches (Debug f as # tr) = fetches tr"
  "fetches (CallVcsGet d t hm c cg ug # tr) = CallVcsGet d t hm c cg ug # fetches tr"
  by (simp_all add: fetches_def)

lemma callVcsGet_eq:
  "callVcsGet ext d t hm c cg ug st =
     (fst (VcsGet ext d t hm c cg ug (world st)),
      \<lparr>world = snd (VcsGet ext d t hm c cg ug (world st)),
       trace = trace st @ [CallVcsGet d t hm c cg ug]\<rparr>)"
  by (simp add: callVcsGet_def split: prod.splits)

lemma poolCalls_worker: "poolCalls (trace (worker ext cwd i st dep)) = poolCalls (trace st)"
  by (simp add: trace_worker poolCalls_def split: option.splits)

lemma poolCalls_workers:
  "poolCalls (trace (foldl (worker ext cwd i) st ds)) = poolCalls (trace st)"
  by (induction ds arbitrary: st) (simp_all add: poolCalls_worker)

lemma poolCalls_ConcurrentUpdate:
  "poolCalls (trace (ConcurrentUpdate ext ds cwd i st)) =
     poolCalls (trace st) @ [CallConcurrentUpdate ds cwd]"
  by (simp add: ConcurrentUpdate_def poolCalls_workers) (simp add: poolCalls_def)

section \<open>The missing package handler\<close>

text \<open>
  Claim C5. For every package path, \<open>OnGopath\<close> returns \<open>(false, nil)\<close>, calls no
  version control operation and leaves the world as it was.
\<close>

theorem OnGopath_not_handled:
  "fst (OnGopath m pkg st) = (False, None)
   \<and> vcsCalls (trace (snd (OnGopath m pkg st))) = vcsCalls (trace st)
   \<and> world (snd (OnGopath m pkg st)) = world st"
  by (simp add: OnGopath_def emit_def vcsCalls_def)



section \<open>Checkout fetches what is missing, once\<close>

lemma fetch_keeps:
  "fetchCreatesTarget ext \<Longrightarrow> fst (VcsGet ext d t hm c cg ug w) = None \<Longrightarrow>
   Stat ext (snd (VcsGet ext d t hm c cg ug w)) t \<and>
   (\<forall>p. Stat ext w p \<longrightarrow> Stat ext (snd (VcsGet ext d t hm c cg ug w)) p)"
  unfolding fetchCreatesTarget_def
  by (metis prod.collapse)

lemma checkoutImports_fetches:
  assumes "fetchCreatesTarget ext"
  shows "\<exists>evs. trace (snd (checkoutImports ext i ds dest st)) = trace st @ evs \<and>
     (\<forall>e \<in> set (fetches evs). \<exists>c \<in> set ds.
        e = CallVcsGet c (Join ext dest (Name c)) (Home i) (UseCache i) (UseCacheGopath i) (UseGopath i)
        \<and> \<not> Stat ext (world st) (Join ext dest (Name c)))"
proof (induction ds arbitrary: st)
  case Nil
  show ?case by simp
next
  case (Cons c cs)
  let ?t = "Join ext dest (Name c)"
  let ?call = "CallVcsGet c ?t (Home i) (UseCache i) (UseCacheGopath i) (UseGopath i)"
  show ?case
  proof (cases "Stat ext (world st) ?t")
    case True
    let ?st1 = "emit (Debug ''Package %s already found.'' [Name c]) st"
    from Cons.IH[of ?st1] obtain evs where
      evs: "trace (snd (checkoutImports ext i cs dest ?st1)) = trace ?st1 @ evs"
        "\<forall>e \<in> set (fetches evs). \<exists>c \<in> set cs.
           e = CallVcsGet c (Join ext dest (Name c)) (Home i) (UseCache i) (UseCacheGopath i) (UseGopath i)
           \<and> \<not> Stat ext (world ?st1) (Join ext dest (Name c))"
      by blast
    have "trace (snd (checkoutImports ext i (c # cs) dest st)) =
          trace st @ (Debug ''Package %s already found.'' [Name c] # evs)"
      using True evs(1) by simp
    moreover have "\<forall>e \<in> set (fetches (Debug ''Package %s already found.'' [Name c] # evs)).
        \<exists>c' \<in> set (c # cs).
           e = CallVcsGet c' (Join ext dest (Name c')) (Home i) (UseCache i) (UseCacheGopath i) (UseGopath i)
           \<and> \<not> Stat ext (world st) (Join ext dest (Name c'))"
      using evs(2) by auto
    ultimately show ?thesis by blast
  next
    case False
    let ?st1 = "emit (Info ''Fetching %s into %s'' [Name c, dest]) st"
    let ?r = "VcsGet ext c ?t (Home i) (UseCache i) (UseCacheGopath i) (UseGopath i) (world st)"
    let ?st2 = "\<lparr>world = snd ?r, trace = trace ?st1 @ [?call]\<rparr>"
    show ?thesis
    proof (cases "fst ?r")
      case (Some err)
      have "trace (snd (checkoutImports ext i (c # cs) dest st)) =
            trace st @ [Info ''Fetching %s into %s'' [Name c, dest], ?call]"
        using False Some by (simp add: callVcsGet_eq Let_def)
      moreover have "\<forall>e \<in> set (fetches [Info ''Fetching %s into %s'' [Name c, dest], ?call]).
        \<exists>c' \<in> set (c # cs).
           e = CallVcsGet c' (Join ext dest (Name c')) (Home i) (UseCache i) (UseCacheGopath i) (UseGopath i)
           \<and> \<not> Stat ext (world st) (Join ext dest (Name c'))"
        using False by simp
      ultimately show ?thesis by blast
    next
      case None
      from Cons.IH[of ?st2] obtain evs where
        evs: "trace (snd (checkoutImports ext i cs dest ?st2)) = trace ?st2 @ evs"
          "\<forall>e \<in> set (fetches evs). \<exists>c \<in> set cs.
             e = CallVcsGet c (Join ext dest (Name c)) (Home i) (UseCache i) (UseCacheGopath i) (UseGopath i)
             \<and> \<not> Stat ext (world ?st2) (Join ext dest (Name c))"
        by blast
      have keep: "\<forall>p. Stat ext (world st) p \<longrightarrow> Stat ext (world ?st2) p"
        using fetch_keeps[OF assms None] by simp
      have "trace (snd (checkoutImports ext i (c # cs) dest st)) =
            trace st @ (Info ''Fetching %s into %s'' [Name c, dest] # ?call # evs)"
        using False None evs(1) by (simp add: callVcsGet_eq Let_def)
      moreover have "\<forall>e \<in> set (fetches (Info ''Fetching %s into %s'' [Name c, dest] # ?call # evs)).
        \<exists>c' \<in> set (c # cs).
           e = CallVcsGet c' (Join ext dest (Name c')) (Home i) (UseCache i) (UseCacheGopath i) (UseGopath i)
           \<and> \<not> Stat ext (world st) (Join ext dest (Name c'))"
        using False evs(2) keep by auto
      ultimately show ?thesis by blast
    qed
  qed
qed

lemma checkoutImports_success:
  assumes "fetchCreatesTarget ext"
  shows "fst (checkoutImports ext i ds dest st) = None \<Longrightarrow>
     (\<forall>c \<in> set ds. Stat ext (world (snd (checkoutImports ext i ds dest st))) (Join ext dest (Name c)))
     \<and> (\<forall>p. Stat ext (world st) p \<longrightarrow> Stat ext (world (snd (checkoutImports ext i ds dest st))) p)"
proof (induction ds arbitrary: st)
  case Nil
  show ?case by simp
next
  case (Cons c cs)
  let ?t = "Join ext dest (Name c)"
  show ?case
  proof (cases "Stat ext (world st) ?t")
    case True
    let ?st1 = "emit (Debug ''Package %s already found.'' [Name c]) st"
    have e: "checkoutImports ext i (c # cs) dest st = checkoutImports ext i cs dest ?st1"
      using True by simp
    from Cons.prems have "fst (checkoutImports ext i cs dest ?st1) = None" unfolding e .
    from Cons.IH[OF this] True show ?thesis unfolding e by simp
  next
    case False
    let ?st1 = "emit (Info ''Fetching %s into %s'' [Name c, dest]) st"
    let ?r = "VcsGet ext c ?t (Home i) (UseCache i) (UseCacheGopath i) (UseGopath i) (world st)"
    let ?st2 = "\<lparr>world = snd ?r,
        trace = trace ?st1 @ [CallVcsGet c ?t (Home i) (UseCache i) (UseCacheGopath i) (UseGopath i)]\<rparr>"
    have ok: "fst ?r = None"
      using Cons.prems False by (simp add: callVcsGet_eq Let_def split: option.splits)
    have e: "checkoutImports ext i (c # cs) dest st = checkoutImports ext i cs dest ?st2"
      using False ok by (simp add: callVcsGet_eq Let_def)
    from Cons.prems have "fst (checkoutImports ext i cs dest ?st2) = None" unfolding e .
    from Cons.IH[OF this] fetch_keeps[OF assms ok] show ?thesis unfolding e by simp
  qed
qed

lemma checkoutImports_present:
  "\<forall>c \<in> set ds. Stat ext (world st) (Join ext dest (Name c)) \<Longrightarrow>
   fst (checkoutImports ext i ds dest st) = None
   \<and> world (snd (checkoutImports ext i ds dest st)) = world st
   \<and> fetches (trace (snd (checkoutImports ext i ds dest st))) = fetches (trace st)"
  by (induction ds arbitrary: st) simp_all


lemma Checkout_eq:
  "Checkout ext i conf useDev st =
     (if fst (checkoutImports ext i (Imports conf) ''./vendor'' st) = None \<and> useDev
      then checkoutImports ext i (DevImports conf) ''./vendor''
             (snd (checkoutImports ext i (Imports conf) ''./vendor'' st))
      else checkoutImports ext i (Imports conf) ''./vendor'' st)"
  by (simp add: Checkout_def Let_def split: prod.splits option.splits)

text \<open>
  Claim C6. Let \<open>VcsGet\<close> keep its contract (a fetch that succeeds creates its target
  and removes nothing). Every fetch that \<open>Checkout\<close> performs is for a declared
  dependency, into its directory under \<open>./vendor\<close>, and that directory did not exist
  when \<open>Checkout\<close> started: no directory that existed is fetched into. When
  \<open>Checkout\<close> returned no error, running it again from the state it left returns no
  error, performs no fetch and leaves the world as it is.
\<close>

theorem Checkout_idempotent:
  assumes "fetchCreatesTarget ext"
  shows "(\<forall>e \<in> set (fetches (drop (length (trace st)) (trace (snd (Checkout ext i conf useDev st))))).
            \<exists>c \<in> set (Imports conf @ (if useDev then DevImports conf else [])).
              e = CallVcsGet c (Join ext ''./vendor'' (Name c))
                    (Home i) (UseCache i) (UseCacheGopath i) (UseGopath i)
              \<and> \<not> Stat ext (world st) (Join ext ''./vendor'' (Name c)))
     \<and> (fst (Checkout ext i conf useDev st) = None \<longrightarrow>
          fst (Checkout ext i conf useDev (snd (Checkout ext i conf useDev st))) = None
          \<and> fetches (trace (snd (Checkout ext i conf useDev (snd (Checkout ext i conf useDev st)))))
              = fetches (trace (snd (Checkout ext i conf useDev st)))
          \<and> world (snd (Checkout ext i conf useDev (snd (Checkout ext i conf useDev st))))
              = world (snd (Checkout ext i conf useDev st)))"
proof (intro conjI impI)
  let ?d = "''./vendor''"
  let ?run1 = "checkoutImports ext i (Imports conf) ?d st"
  let ?run2 = "checkoutImports ext i (DevImports conf) ?d (snd ?run1)"
  let ?P = "\<lambda>w ds e. \<exists>c \<in> set ds.
              e = CallVcsGet c (Join ext ?d (Name c)) (Home i) (UseCache i) (UseCacheGopath i) (UseGopath i)
              \<and> \<not> Stat ext w (Join ext ?d (Name c))"
  from checkoutImports_fetches[OF assms, of i "Imports conf" ?d st] obtain evs1 where
    evs1: "trace (snd ?run1) = trace st @ evs1" "\<forall>e \<in> set (fetches evs1). ?P (world st) (Imports conf) e"
    by blast
  show "\<forall>e \<in> set (fetches (drop (length (trace st)) (trace (snd (Checkout ext i conf useDev st))))).
            \<exists>c \<in> set (Imports conf @ (if useDev then DevImports conf else [])).
              e = CallVcsGet c (Join ext ?d (Name c))
                    (Home i) (UseCache i) (UseCacheGopath i) (UseGopath i)
              \<and> \<not> Stat ext (world st) (Join ext ?d (Name c))"
  proof (cases "fst ?run1 = None \<and> useDev")
    case False
    have "Checkout ext i conf useDev st = ?run1"
      by (subst Checkout_eq) (simp only: False if_False)
    then show ?thesis using evs1 by auto
  next
    case True
    from checkoutImports_fetches[OF assms, of i "DevImports conf" ?d "snd ?run1"] obtain evs2 where
      evs2: "trace (snd ?run2) = trace (snd ?run1) @ evs2"
        "\<forall>e \<in> set (fetches evs2). ?P (world (snd ?run1)) (DevImports conf) e"
      by blast
    have keep: "\<forall>p. Stat ext (world st) p \<longrightarrow> Stat ext (world (snd ?run1)) p"
      using checkoutImports_success[OF assms, of i "Imports conf" ?d st] True by simp
    have "\<forall>e \<in> set (fetches evs2). ?P (world st) (DevImports conf) e"
      using evs2(2) keep by blast
    moreover have "Checkout ext i conf useDev st = ?run2" using True by (simp add: Checkout_eq)
    ultimately show ?thesis using evs1 evs2(1) True by auto
  qed
next
  let ?d = "''./vendor''"
  let ?run1 = "checkoutImports ext i (Imports conf) ?d st"
  let ?run2 = "checkoutImports ext i (DevImports conf) ?d (snd ?run1)"
  let ?st1 = "snd (Checkout ext i conf useDev st)"
  assume ok: "fst (Checkout ext i conf useDev st) = None"
  then have ok1: "fst ?run1 = None" by (simp add: Checkout_eq split: if_splits)
  note s1 = checkoutImports_success[OF assms ok1]
  have imps: "\<forall>c \<in> set (Imports conf). Stat ext (world ?st1) (Join ext ?d (Name c))"
  proof (cases useDev)
    case False
    then show ?thesis using s1 by (simp add: Checkout_eq)
  next
    case True
    then have "fst ?run2 = None" using ok ok1 by (simp add: Checkout_eq)
    from checkoutImports_success[OF assms this] s1 True ok1 show ?thesis
      by (simp add: Checkout_eq)
  qed
  have devs: "useDev \<Longrightarrow> \<forall>c \<in> set (DevImports conf). Stat ext (world ?st1) (Join ext ?d (Name c))"
  proof -
    assume u: useDev
    then have "fst ?run2 = None" using ok ok1 by (simp add: Checkout_eq)
    from checkoutImports_success[OF assms this] u ok1 show ?thesis
      by (simp add: Checkout_eq)
  qed
  let ?again1 = "checkoutImports ext i (Imports conf) ?d ?st1"
  note p1 = checkoutImports_present[OF imps, of i]
  have again: "fst (Checkout ext i conf useDev ?st1) = None
      \<and> fetches (trace (snd (Checkout ext i conf useDev ?st1))) = fetches (trace ?st1)
      \<and> world (snd (Checkout ext i conf useDev ?st1)) = world ?st1"
  proof (cases useDev)
    case False
    have e2: "Checkout ext i conf useDev ?st1 = ?again1"
      using False by (subst Checkout_eq) simp
    show ?thesis unfolding e2 using p1 by simp
  next
    case True
    have e2: "Checkout ext i conf useDev ?st1 =
              checkoutImports ext i (DevImports conf) ?d (snd ?again1)"
      using p1 True by (subst Checkout_eq) simp
    have "\<forall>c \<in> set (DevImports conf). Stat ext (world (snd ?again1)) (Join ext ?d (Name c))"
      using devs[OF True] p1 by simp
    from checkoutImports_present[OF this, of i] p1 show ?thesis
      unfolding e2 by simp
  qed
  then show "fst (Checkout ext i conf useDev ?st1) = None"
    and "fetches (trace (snd (Checkout ext i conf useDev ?st1))) = fetches (trace ?st1)"
    and "world (snd (Checkout ext i conf useDev ?st1)) = world ?st1"
    by simp_all
qed

lemma fetchCreatesTarget_demoExt: "fetchCreatesTarget demoExt"
  by (auto simp: fetchCreatesTarget_def demoExt_def split: if_splits)

theorem Checkout_idempotent_witness:
  "fetchCreatesTarget demoExt
   \<and> fst (Checkout demoExt demoInstaller demoConfig True \<lparr>world = [''vendor/example.com/b''], trace = []\<rparr>) = None
   \<and> fetches (trace (snd (Checkout demoExt demoInstaller demoConfig True
        \<lparr>world = [''vendor/example.com/b''], trace = []\<rparr>))) =
       [CallVcsGet (newDependency ''example.com/a/sub1'' []) ''vendor/example.com/a/sub1''
          ''/home/glide'' False False False,
        CallVcsGet (newDependency ''example.com/c'' []) ''vendor/example.com/c''
          ''/home/glide'' False False False]
   \<and> fetches (trace (snd (Checkout demoExt demoInstaller demoConfig True
        (snd (Checkout demoExt demoInstaller demoConfig True
           \<lparr>world = [''vendor/example.com/b''], trace = []\<rparr>))))) =
       [CallVcsGet (newDependency ''example.com/a/sub1'' []) ''vendor/example.com/a/sub1''
          ''/home/glide'' False False False,
        CallVcsGet (newDependency ''example.com/c'' []) ''vendor/example.com/c''
          ''/home/glide'' False False False]"
proof -
  let ?st = "\<lparr>world = [''vendor/example.com/b''], trace = []\<rparr> :: string list state"
  have run: "Checkout demoExt demoInstaller demoConfig True ?st =
    (None, \<lparr>world = [''vendor/example.com/c'', ''vendor/example.com/a/sub1'', ''vendor/example.com/b''],
            trace = [Info ''Fetching %s into %s'' [''example.com/a/sub1'', ''./vendor''],
                     CallVcsGet (newDependency ''example.com/a/sub1'' []) ''vendor/example.com/a/sub1''
                       ''/home/glide'' False False False,
                     Debug ''Package %s already found.'' [''example.com/b''],
                     Info ''Fetching %s into %s'' [''example.com/c'', ''./vendor''],
                     CallVcsGet (newDependency ''example.com/c'' []) ''vendor/example.com/c''
                       ''/home/glide'' False False False]\<rparr>)"
    by (simp add: Checkout_def demoConfig_def demoExt_def demoJoin_def demoInstaller_def
        callVcsGet_def emit_def newDependency_def Let_def)
  let ?c = "Checkout demoExt demoInstaller demoConfig True"
  have ok: "fst (?c ?st) = None" by (simp add: run)
  have first: "fetches (trace (snd (?c ?st))) =
       [CallVcsGet (newDependency ''example.com/a/sub1'' []) ''vendor/example.com/a/sub1''
          ''/home/glide'' False False False,
        CallVcsGet (newDependency ''example.com/c'' []) ''vendor/example.com/c''
          ''/home/glide'' False False False]"
    by (simp add: run fetches_def)
  have rerun: "fst (?c (snd (?c ?st))) = None
      \<and> fetches (trace (snd (?c (snd (?c ?st))))) = fetches (trace (snd (?c ?st)))
      \<and> world (snd (?c (snd (?c ?st)))) = world (snd (?c ?st))"
    by (rule mp[OF conjunct2[OF Checkout_idempotent[OF fetchCreatesTarget_demoExt]] ok])
  then have "fetches (trace (snd (?c (snd (?c ?st))))) = fetches (trace (snd (?c ?st)))"
    by (elim conjE)
  then have second: "fetches (trace (snd (?c (snd (?c ?st))))) =
       [CallVcsGet (newDependency ''example.com/a/sub1'' []) ''vendor/example.com/a/sub1''
          ''/home/glide'' False False False,
        CallVcsGet (newDependency ''example.com/c'' []) ''vendor/example.com/c''
          ''/home/glide'' False False False]"
    by (simp only: first)
  show ?thesis
    by (intro conjI fetchCreatesTarget_demoExt ok first second)
qed

section \<open>Install\<close>

text \<open>
  Claim C7, as amended. When \<open>gpath.Vendor\<close> fails, \<open>Install\<close> returns that error with
  the configuration it was given and does nothing else: the state is unchanged. When
  \<open>gpath.Vendor\<close> returns no error, \<open>Install\<close> returns the de-duplicated configuration
  built from the lock file and a nil error. When the import list of that configuration
  is empty, the only effect is the message that nothing was installed: no version
  control operation and no worker pool is called. Otherwise the worker pool is called
  exactly twice, first for the imports and then for the dev-imports.
\<close>

theorem Install_outcomes:
  "(Vendor ext (world st) = (cwd, Some err) \<longrightarrow>
      Install ext i lock conf st = ((conf, Some err), st))
   \<and> (Vendor ext (world st) = (cwd, None) \<longrightarrow>
      fst (Install ext i lock conf st) = (DeDupe ext (lockConfig lock conf), None)
      \<and> (if Imports (DeDupe ext (lockConfig lock conf)) = []
         then snd (Install ext i lock conf st) =
                emit (Info (''No dependencies found. Nothing installed.'' @ [CHR 0x0A]) []) st
              \<and> vcsCalls (trace (snd (Install ext i lock conf st))) = vcsCalls (trace st)
              \<and> poolCalls (trace (snd (Install ext i lock conf st))) = poolCalls (trace st)
         else poolCalls (trace (snd (Install ext i lock conf st))) =
                poolCalls (trace st) @
                  [CallConcurrentUpdate (Imports (DeDupe ext (lockConfig lock conf))) cwd,
                   CallConcurrentUpdate (DevImports (DeDupe ext (lockConfig lock conf))) cwd]))"
proof (intro conjI impI)
  assume "Vendor ext (world st) = (cwd, Some err)"
  then show "Install ext i lock conf st = ((conf, Some err), st)"
    by (simp add: Install_def)
next
  assume v: "Vendor ext (world st) = (cwd, None)"
  then show "fst (Install ext i lock conf st) = (DeDupe ext (lockConfig lock conf), None)"
    by (simp add: Install_def Let_def)
  from v show "if Imports (DeDupe ext (lockConfig lock conf)) = []
         then snd (Install ext i lock conf st) =
                emit (Info (''No dependencies found. Nothing installed.'' @ [CHR 0x0A]) []) st
              \<and> vcsCalls (trace (snd (Install ext i lock conf st))) = vcsCalls (trace st)
              \<and> poolCalls (trace (snd (Install ext i lock conf st))) = poolCalls (trace st)
         else poolCalls (trace (snd (Install ext i lock conf st))) =
                poolCalls (trace st) @
                  [CallConcurrentUpdate (Imports (DeDupe ext (lockConfig lock conf))) cwd,
                   CallConcurrentUpdate (DevImports (DeDupe ext (lockConfig lock conf))) cwd]"
    by (simp add: Install_def Let_def poolCalls_ConcurrentUpdate)
       (simp add: vcsCalls_def poolCalls_def)
qed

text \<open>
  Three runs: \<open>gpath.Vendor\<close> fails; it succeeds and the lock file is empty; it succeeds
  and the lock file has two imports.
\<close>

theorem Install_outcomes_witness:
  "Vendor noVendorExt (world emptyState) = ([], Some (Error ''no vendor directory''))
   \<and> Install noVendorExt demoInstaller demoLockfile demoConfig emptyState =
       ((demoConfig, Some (Error ''no vendor directory'')), emptyState)
   \<and> Vendor demoExt (world emptyState) = (''vendor'', None)
   \<and> Install demoExt demoInstaller emptyLockfile demoConfig emptyState =
       ((\<lparr>ConfigName = ''example.com/app'', Imports = [], DevImports = []\<rparr>, None),
        \<lparr>world = [],
         trace = [Info (''No dependencies found. Nothing installed.'' @ [CHR 0x0A]) []]\<rparr>)
   \<and> fst (Install demoExt demoInstaller demoLockfile demoConfig emptyState) =
       (\<lparr>ConfigName = ''example.com/app'',
         Imports =
           [\<lparr>Name = ''example.com/a'', Reference = ''v1.0.0'', Repository = [], VcsType = [],
             Subpackages = [''sub1''], Arch = [], Os = []\<rparr>,
            \<lparr>Name = ''example.com/broken'', Reference = ''v2.0.0'', Repository = [], VcsType = [],
             Subpackages = [], Arch = [], Os = []\<rparr>],
         DevImports = []\<rparr>, None)
   \<and> poolCalls (trace (snd (Install demoExt demoInstaller demoLockfile demoConfig emptyState))) =
       [CallConcurrentUpdate
          [\<lparr>Name = ''example.com/a'', Reference = ''v1.0.0'', Repository = [], VcsType = [],
            Subpackages = [''sub1''], Arch = [], Os = []\<rparr>,
           \<lparr>Name = ''example.com/broken'', Reference = ''v2.0.0'', Repository = [], VcsType = [],
            Subpackages = [], Arch = [], Os = []\<rparr>] ''vendor'',
        CallConcurrentUpdate [] ''vendor'']"
proof -
  have nv: "Vendor noVendorExt (world emptyState) = ([], Some (Error ''no vendor directory''))"
    by (simp add: noVendorExt_def)
  have v: "Vendor demoExt (world emptyState) = (''vendor'', None)"
    by (simp add: demoExt_def)
  have fails: "Install noVendorExt demoInstaller demoLockfile demoConfig emptyState =
       ((demoConfig, Some (Error ''no vendor directory'')), emptyState)"
    using Install_outcomes[where ext = noVendorExt and st = emptyState and cwd = "[]"
        and err = "Error ''no vendor directory''" and i = demoInstaller
        and lock = demoLockfile and conf = demoConfig] nv
    by blast
  have ce: "DeDupe demoExt (lockConfig emptyLockfile demoConfig) =
       \<lparr>ConfigName = ''example.com/app'', Imports = [], DevImports = []\<rparr>"
    by (simp add: demoExt_def lockConfig_def emptyLockfile_def demoConfig_def)
  have "fst (Install demoExt demoInstaller emptyLockfile demoConfig emptyState) =
          (DeDupe demoExt (lockConfig emptyLockfile demoConfig), None)
        \<and> snd (Install demoExt demoInstaller emptyLockfile demoConfig emptyState) =
            emit (Info (''No dependencies found. Nothing installed.'' @ [CHR 0x0A]) []) emptyState"
    using Install_outcomes[where ext = demoExt and st = emptyState and cwd = "''vendor''"
        and i = demoInstaller and lock = emptyLockfile and conf = demoConfig] v
    by (simp add: ce)
  then have empty: "Install demoExt demoInstaller emptyLockfile demoConfig emptyState =
       ((\<lparr>ConfigName = ''example.com/app'', Imports = [], DevImports = []\<rparr>, None),
        \<lparr>world = [],
         trace = [Info (''No dependencies found. Nothing installed.'' @ [CHR 0x0A]) []]\<rparr>)"
    by (simp add: ce prod_eq_iff emit_def emptyState_def)
  have c: "DeDupe demoExt (lockConfig demoLockfile demoConfig) =
       \<lparr>ConfigName = ''example.com/app'',
         Imports =
           [\<lparr>Name = ''example.com/a'', Reference = ''v1.0.0'', Repository = [], VcsType = [],
             Subpackages = [''sub1''], Arch = [], Os = []\<rparr>,
            \<lparr>Name = ''example.com/broken'', Reference = ''v2.0.0'', Repository = [], VcsType = [],
             Subpackages = [], Arch = [], Os = []\<rparr>],
         DevImports = []\<rparr>"
    by (simp add: demoExt_def lockConfig_def demoLockfile_def demoConfig_def lockDependency_def)
  have p: "poolCalls (trace emptyState) = []"
    by (simp add: emptyState_def poolCalls_def)
  have full: "fst (Install demoExt demoInstaller demoLockfile demoConfig emptyState) =
          (DeDupe demoExt (lockConfig demoLockfile demoConfig), None)
     \<and> poolCalls (trace (snd (Install demoExt demoInstaller demoLockfile demoConfig emptyState))) =
        poolCalls (trace emptyState) @
          [CallConcurrentUpdate (Imports (DeDupe demoExt (lockConfig demoLockfile demoConfig))) ''vendor'',
           CallConcurrentUpdate (DevImports (DeDupe demoExt (lockConfig demoLockfile demoConfig))) ''vendor'']"
    using Install_outcomes[where ext = demoExt and st = emptyState and cwd = "''vendor''"
        and i = demoInstaller and lock = demoLockfile and conf = demoConfig] v
    by (simp add: c)
  show ?thesis
    using nv fails v empty full unfolding c p by simp
qed

text \<open>
  The claim as stated has \<open>Install\<close> return a nil error whenever the import list derived
  from the lock file is empty. With an empty lock file and a \<open>gpath.Vendor\<close> that fails,
  \<open>Install\<close> returns that error with the configuration it was given, and reports nothing.
\<close>

theorem Install_vendor_failure_counterexample:
  "Imports (DeDupe noVendorExt (lockConfig emptyLockfile demoConfig)) = []
   \<and> Install noVendorExt demoInstaller emptyLockfile demoConfig emptyState =
      ((demoConfig, Some (Error ''no vendor directory'')), emptyState)"
  by (simp add: Install_def noVendorExt_def demoExt_def lockConfig_def emptyLockfile_def)

section \<open>Update\<close>

lemma NotFound_VcsUpdate [simp]: "NotFound (ext\<lparr>VcsUpdate := u\<rparr>) = NotFound ext"
  by (intro ext) (simp add: NotFound_def callVcsGet_def)

lemma updateHandler_VcsUpdate [simp]: "updateHandler (ext\<lparr>VcsUpdate := u\<rparr>) = updateHandler ext"
  by (intro ext) (simp add: updateHandler_def)

lemma allPackages_VcsUpdate [simp]: "allPackages (ext\<lparr>VcsUpdate := u\<rparr>) = allPackages ext"
  by (intro ext) (simp add: allPackages_def)

lemma fst_Install:
  "fst (Install ext i lock conf st) =
     (case Vendor ext (world st) of
        (cwd, Some err) \<Rightarrow> (conf, Some err)
      | (cwd, None) \<Rightarrow> (DeDupe ext (lockConfig lock conf), None))"
  by (simp add: Install_def Let_def split: prod.splits option.splits)

lemma fst_Update:
  "fst (Update ext i conf st) =
     (case NewResolver ext ''.'' (world st) of
        Inl err \<Rightarrow> Exited
      | Inr res \<Rightarrow>
          (case fst (allPackages ext (Imports conf) res (NotFound ext (updateHandler ext i))
                       (OnGopath (updateHandler ext i)) (emit (Info ''Resolving imports'' []) st)) of
             (packages, Some err) \<Rightarrow> Exited
           | (packages, None) \<Rightarrow>
               (case ConfigHash ext conf of
                  (hash, Some err) \<Rightarrow> Returned (None, Some err)
                | (hash, None) \<Rightarrow>
                    Returned (Some (NewLockfile (depsFromPackages (NormalizeName ext) packages) hash), None))))"
  by (simp add: Update_def Let_def split: prod.splits option.splits sum.splits)

lemma messages_append [simp]: "messages (xs @ ys) = messages xs @ messages ys"
  by (simp add: messages_def)

lemma world_worker: "world (worker ext cwd i st dep) = snd (VcsUpdate ext dep cwd i (world st))"
  by (simp add: worker_def callVcsUpdate_def split: prod.splits option.splits)

lemma messages_worker:
  "messages (trace (worker ext cwd i st dep)) =
     messages (trace st) @ map updateWarning (updateFailures ext cwd i (world st) [dep])"
  by (simp add: trace_worker messages_def split: prod.splits option.splits)

lemma updateFailures_step:
  "updateFailures ext cwd i w (d # ds) =
     updateFailures ext cwd i w [d] @ updateFailures ext cwd i (snd (VcsUpdate ext d cwd i w)) ds"
  by (simp split: prod.splits option.splits)

lemma messages_workers:
  "messages (trace (foldl (worker ext cwd i) st ds)) =
     messages (trace st) @ map updateWarning (updateFailures ext cwd i (world st) ds)"
proof (induction ds arbitrary: st)
  case Nil
  show ?case by simp
next
  case (Cons d ds)
  have "messages (trace (foldl (worker ext cwd i) st (d # ds))) =
        messages (trace (worker ext cwd i st d)) @
          map updateWarning (updateFailures ext cwd i (world (worker ext cwd i st d)) ds)"
    using Cons.IH[of "worker ext cwd i st d"] by simp
  also have "\<dots> = messages (trace st) @
      map updateWarning (updateFailures ext cwd i (world st) [d] @
         updateFailures ext cwd i (snd (VcsUpdate ext d cwd i (world st))) ds)"
    by (simp only: messages_worker world_worker map_append append_assoc)
  finally show ?case by (simp only: updateFailures_step[of ext cwd i "world st" d ds])
qed

lemma world_workers:
  "world (foldl (worker ext cwd i) st ds) = worldAfterUpdates ext cwd i (world st) ds"
  by (induction ds arbitrary: st) (simp_all add: world_worker)

lemma messages_ConcurrentUpdate:
  "messages (trace (ConcurrentUpdate ext ds cwd i st)) =
     messages (trace st) @
       map updateWarning (updateFailures ext cwd i (world st) (Schedule ext ds))"
  by (simp add: ConcurrentUpdate_def messages_workers) (simp add: messages_def)

lemma world_ConcurrentUpdate:
  "world (ConcurrentUpdate ext ds cwd i st) =
     worldAfterUpdates ext cwd i (world st) (Schedule ext ds)"
  by (simp add: ConcurrentUpdate_def world_workers)

text \<open>
  Claim C8. A failing update is recorded as a warning and nowhere else.
  \<^item> The messages that \<open>ConcurrentUpdate\<close> adds to the trace are exactly the warnings
    of the updates that failed, one for each, with the dependency's name and the error,
    in the order of the updates; it has no result value.
  \<^item> The value that \<open>Install\<close> returns is the same whatever \<open>VcsUpdate\<close> does, and its
    error is the one of \<open>gpath.Vendor\<close>; when the worker pool runs, the messages of
    \<open>Install\<close> are the warnings of the two pools.
  \<^item> The value that \<open>Update\<close> returns is the same whatever \<open>VcsUpdate\<close> does; after a
    resolution without error \<open>Update\<close> does not exit, and its messages after the
    resolution are the notice on dev-imports and the warnings of the pool.
  \<^item> A worker adds to the trace the call and, when it failed, the warning.
\<close>

theorem update_failures_not_surfaced:
  "messages (trace (ConcurrentUpdate ext ds cwd i st)) =
     messages (trace st) @
       map updateWarning (updateFailures ext cwd i (world st) (Schedule ext ds))
   \<and> fst (Install (ext\<lparr>VcsUpdate := u\<rparr>) i lock conf st) = fst (Install ext i lock conf st)
   \<and> snd (fst (Install ext i lock conf st)) = snd (Vendor ext (world st))
   \<and> (Vendor ext (world st) = (vdir, None) \<and> Imports (DeDupe ext (lockConfig lock conf)) \<noteq> [] \<longrightarrow>
        messages (trace (snd (Install ext i lock conf st))) =
          messages (trace st) @
            map updateWarning
              (updateFailures ext vdir i (world st)
                 (Schedule ext (Imports (DeDupe ext (lockConfig lock conf))))) @
            map updateWarning
              (updateFailures ext vdir i
                 (worldAfterUpdates ext vdir i (world st)
                    (Schedule ext (Imports (DeDupe ext (lockConfig lock conf)))))
                 (Schedule ext (DevImports (DeDupe ext (lockConfig lock conf))))))
   \<and> fst (Update (ext\<lparr>VcsUpdate := u\<rparr>) i conf st) = fst (Update ext i conf st)
   \<and> (NewResolver ext ''.'' (world st) = Inr res \<and>
      allPackages ext (Imports conf) res (NotFound ext (updateHandler ext i))
        (OnGopath (updateHandler ext i)) (emit (Info ''Resolving imports'' []) st) =
        ((packages, None), stw) \<longrightarrow>
        fst (Update ext i conf st) \<noteq> Exited
        \<and> messages (trace (snd (Update ext i conf st))) =
            messages (trace stw) @ Warn ''devImports not resolved.'' [] #
              map updateWarning
                (updateFailures ext ''.'' i (world stw)
                   (Schedule ext (depsFromPackages (NormalizeName ext) packages))))
   \<and> trace (worker ext cwd i st dep) =
       trace st @ CallVcsUpdate dep cwd i #
         (case fst (VcsUpdate ext dep cwd i (world st)) of
            None \<Rightarrow> []
          | Some err \<Rightarrow>
              [Warn (''Update failed for %s: %s'' @ [CHR 0x0A]) [Name dep, errorText err]])"
proof (intro conjI impI)
  show "messages (trace (ConcurrentUpdate ext ds cwd i st)) =
     messages (trace st) @
       map updateWarning (updateFailures ext cwd i (world st) (Schedule ext ds))"
    by (rule messages_ConcurrentUpdate)
  show "fst (Install (ext\<lparr>VcsUpdate := u\<rparr>) i lock conf st) = fst (Install ext i lock conf st)"
    by (simp add: fst_Install split: prod.splits option.splits)
  show "snd (fst (Install ext i lock conf st)) = snd (Vendor ext (world st))"
    by (simp add: fst_Install split: prod.splits option.splits)
  show "fst (Update (ext\<lparr>VcsUpdate := u\<rparr>) i conf st) = fst (Update ext i conf st)"
    by (simp add: fst_Update split: prod.splits option.splits sum.splits)
  show "trace (worker ext cwd i st dep) =
       trace st @ CallVcsUpdate dep cwd i #
         (case fst (VcsUpdate ext dep cwd i (world st)) of
            None \<Rightarrow> []
          | Some err \<Rightarrow>
              [Warn (''Update failed for %s: %s'' @ [CHR 0x0A]) [Name dep, errorText err]])"
    by (rule trace_worker)
next
  assume "Vendor ext (world st) = (vdir, None) \<and> Imports (DeDupe ext (lockConfig lock conf)) \<noteq> []"
  then show "messages (trace (snd (Install ext i lock conf st))) =
          messages (trace st) @
            map updateWarning
              (updateFailures ext vdir i (world st)
                 (Schedule ext (Imports (DeDupe ext (lockConfig lock conf))))) @
            map updateWarning
              (updateFailures ext vdir i
                 (worldAfterUpdates ext vdir i (world st)
                    (Schedule ext (Imports (DeDupe ext (lockConfig lock conf)))))
                 (Schedule ext (DevImports (DeDupe ext (lockConfig lock conf)))))"
    by (simp add: Install_def Let_def messages_ConcurrentUpdate world_ConcurrentUpdate)
next
  assume a: "NewResolver ext ''.'' (world st) = Inr res \<and>
      allPackages ext (Imports conf) res (NotFound ext (updateHandler ext i))
        (OnGopath (updateHandler ext i)) (emit (Info ''Resolving imports'' []) st) =
        ((packages, None), stw)"
  then show "fst (Update ext i conf st) \<noteq> Exited"
    by (simp add: fst_Update split: prod.splits option.splits)
  from a show "messages (trace (snd (Update ext i conf st))) =
            messages (trace stw) @ Warn ''devImports not resolved.'' [] #
              map updateWarning
                (updateFailures ext ''.'' i (world stw)
                   (Schedule ext (depsFromPackages (NormalizeName ext) packages)))"
    by (simp add: Update_def Let_def messages_ConcurrentUpdate split: prod.splits option.splits)
       (simp add: messages_def)
qed

text \<open>
  Runs in which every update fails: \<open>Install\<close> and \<open>Update\<close> return what they return
  when no update fails, with no error, and each failure is among the messages.
\<close>

theorem update_failures_not_surfaced_witness:
  "fst (Install staleExt demoInstaller demoLockfile demoConfig emptyState) =
     fst (Install demoExt demoInstaller demoLockfile demoConfig emptyState)
   \<and> snd (fst (Install staleExt demoInstaller demoLockfile demoConfig emptyState)) = None
   \<and> messages (trace (snd (Install staleExt demoInstaller demoLockfile demoConfig emptyState))) =
       [Warn (''Update failed for %s: %s'' @ [CHR 0x0A]) [''example.com/a'', ''update failed''],
        Warn (''Update failed for %s: %s'' @ [CHR 0x0A]) [''example.com/broken'', ''update failed'']]
   \<and> fst (Update staleExt demoInstaller demoConfig emptyState) =
       fst (Update demoExt demoInstaller demoConfig emptyState)
   \<and> fst (Update staleExt demoInstaller demoConfig emptyState) \<noteq> Exited
   \<and> messages (trace (snd (Update staleExt demoInstaller demoConfig emptyState))) =
       [Info ''Resolving imports'' [],
        Info ''Fetching %s into %s'' [''example.com/a/sub1'', ''vendor''],
        Info ''Fetching %s into %s'' [''example.com/b'', ''vendor''],
        Warn ''devImports not resolved.'' [],
        Warn (''Update failed for %s: %s'' @ [CHR 0x0A]) [''example.com/a'', ''update failed''],
        Warn (''Update failed for %s: %s'' @ [CHR 0x0A]) [''example.com/b'', ''update failed'']]"
proof -
  let ?mid = "\<lparr>world = [''vendor/example.com/b'', ''vendor/example.com/a/sub1''],
        trace = [Info ''Resolving imports'' [],
                 Info ''Fetching %s into %s'' [''example.com/a/sub1'', ''vendor''],
                 CallVcsGet (newDependency ''example.com/a/sub1'' []) ''vendor/example.com/a/sub1''
                   ''/home/glide'' False False False,
                 Info ''Fetching %s into %s'' [''example.com/b'', ''vendor''],
                 CallVcsGet (newDependency ''example.com/b'' []) ''vendor/example.com/b''
                   ''/home/glide'' False False False]\<rparr> :: string list state"
  let ?pk = "[''example.com/a/sub1'', ''example.com/b'']"
  note t = update_failures_not_surfaced[where ext = staleExt and i = demoInstaller
      and lock = demoLockfile and conf = demoConfig and st = emptyState
      and u = "VcsUpdate demoExt" and vdir = "''vendor''" and res = "()"
      and packages = ?pk and stw = ?mid]
  have same: "staleExt\<lparr>VcsUpdate := VcsUpdate demoExt\<rparr> = demoExt"
    by (simp add: staleExt_def demoExt_def)
  have v: "Vendor staleExt (world emptyState) = (''vendor'', None)"
    by (simp add: staleExt_def demoExt_def)
  have ne: "Imports (DeDupe staleExt (lockConfig demoLockfile demoConfig)) \<noteq> []"
    by (simp add: staleExt_def demoExt_def lockConfig_def demoLockfile_def)
  have r: "NewResolver staleExt ''.'' (world emptyState) = Inr ()"
    by (simp add: staleExt_def demoExt_def)
  have walk: "allPackages staleExt (Imports demoConfig) () (NotFound staleExt (updateHandler staleExt demoInstaller))
        (OnGopath (updateHandler staleExt demoInstaller)) (emit (Info ''Resolving imports'' []) emptyState) =
        ((?pk, None), ?mid)"
    by (simp add: allPackages_def demoConfig_def staleExt_def demoExt_def demoJoin_def NotFound_def
        updateHandler_def demoInstaller_def callVcsGet_def emit_def emptyState_def
        newDependency_def Let_def TrimPrefix_def)
  from t have i1: "fst (Install staleExt demoInstaller demoLockfile demoConfig emptyState) =
     fst (Install demoExt demoInstaller demoLockfile demoConfig emptyState)"
    unfolding same by simp
  from t v have i2: "snd (fst (Install staleExt demoInstaller demoLockfile demoConfig emptyState)) = None"
    by simp
  from t v ne have "messages (trace (snd (Install staleExt demoInstaller demoLockfile demoConfig emptyState))) =
          messages (trace emptyState) @
            map updateWarning
              (updateFailures staleExt ''vendor'' demoInstaller (world emptyState)
                 (Schedule staleExt (Imports (DeDupe staleExt (lockConfig demoLockfile demoConfig))))) @
            map updateWarning
              (updateFailures staleExt ''vendor'' demoInstaller
                 (worldAfterUpdates staleExt ''vendor'' demoInstaller (world emptyState)
                    (Schedule staleExt (Imports (DeDupe staleExt (lockConfig demoLockfile demoConfig)))))
                 (Schedule staleExt (DevImports (DeDupe staleExt (lockConfig demoLockfile demoConfig)))))"
    by blast
  then have i3: "messages (trace (snd (Install staleExt demoInstaller demoLockfile demoConfig emptyState))) =
       [Warn (''Update failed for %s: %s'' @ [CHR 0x0A]) [''example.com/a'', ''update failed''],
        Warn (''Update failed for %s: %s'' @ [CHR 0x0A]) [''example.com/broken'', ''update failed'']]"
    by (simp add: staleExt_def demoExt_def lockConfig_def demoLockfile_def lockDependency_def
        emptyState_def messages_def)
  from t have u1: "fst (Update staleExt demoInstaller demoConfig emptyState) =
       fst (Update demoExt demoInstaller demoConfig emptyState)"
    unfolding same by simp
  from t r walk have u2: "fst (Update staleExt demoInstaller demoConfig emptyState) \<noteq> Exited"
    and "messages (trace (snd (Update staleExt demoInstaller demoConfig emptyState))) =
            messages (trace ?mid) @ Warn ''devImports not resolved.'' [] #
              map updateWarning
                (updateFailures staleExt ''.'' demoInstaller (world ?mid)
                   (Schedule staleExt (depsFromPackages (NormalizeName staleExt) ?pk)))"
    by blast+
  then have u3: "messages (trace (snd (Update staleExt demoInstaller demoConfig emptyState))) =
       [Info ''Resolving imports'' [],
        Info ''Fetching %s into %s'' [''example.com/a/sub1'', ''vendor''],
        Info ''Fetching %s into %s'' [''example.com/b'', ''vendor''],
        Warn ''devImports not resolved.'' [],
        Warn (''Update failed for %s: %s'' @ [CHR 0x0A]) [''example.com/a'', ''update failed''],
        Warn (''Update failed for %s: %s'' @ [CHR 0x0A]) [''example.com/b'', ''update failed'']]"
    by (simp add: staleExt_def demoExt_def messages_def depsFromPackages_eq suffixesOf_def
        specNormalizeName_def newDependency_def)
  show ?thesis by (intro conjI i1 i2 i3 u1 u2 u3)
qed

text \<open>
  Claim C9. A failure of the resolution phase ends \<open>Update\<close>: when \<open>NewResolver\<close>
  returns an error, or when \<open>allPackages\<close> (the resolver's walk) returns one, the run
  exits through \<open>msg.Die\<close> and the final state is the state at the failure with the
  message of \<open>msg.Die\<close> added: no aggregation, no call of the worker pool and no lock
  record follow. A failing \<open>ResolveAll\<close> makes \<open>allPackages\<close> fail with its error.
\<close>

theorem Update_resolution_failure_fatal:
  "(NewResolver ext ''.'' (world st) = Inl err \<longrightarrow>
      Update ext i conf st =
        (Exited, emit (Die ''Failed to create a resolver: %s'' [errorText err]) st))
   \<and> (NewResolver ext ''.'' (world st) = Inr res \<and>
      allPackages ext (Imports conf) res (NotFound ext (updateHandler ext i))
        (OnGopath (updateHandler ext i)) (emit (Info ''Resolving imports'' []) st) =
        ((packages, Some err), st2) \<longrightarrow>
      Update ext i conf st =
        (Exited,
         emit (Die ''Failed to retrieve a list of dependencies: %s'' [errorText err]) st2))
   \<and> (Imports conf \<noteq> [] \<and> Vendor ext (world st1) = (vdir, None) \<and>
      ResolveAll ext res notFound onGopath (Imports conf) st1 = ((ll, Some err), st2) \<longrightarrow>
      allPackages ext (Imports conf) res notFound onGopath st1 = (([], Some err), st2))"
  by (simp add: Update_def allPackages_def Let_def)

theorem Update_resolution_failure_fatal_witness:
  "NewResolver noResolverExt ''.'' (world emptyState) = Inl (Error ''no resolver'')
   \<and> Update noResolverExt demoInstaller demoConfig emptyState =
       (Exited, \<lparr>world = [], trace = [Die ''Failed to create a resolver: %s'' [''no resolver'']]\<rparr>)
   \<and> Update demoExt demoInstaller brokenConfig emptyState =
       (Exited,
        \<lparr>world = [],
         trace = [Info ''Resolving imports'' [],
                  Info ''Fetching %s into %s'' [''example.com/broken'', ''vendor''],
                  CallVcsGet (newDependency ''example.com/broken'' []) ''vendor/example.com/broken''
                    ''/home/glide'' False False False,
                  Die ''Failed to retrieve a list of dependencies: %s'' [''fetch failed'']]\<rparr>)"
proof -
  let ?ext = noResolverExt
  have r: "NewResolver ?ext ''.'' (world emptyState) = Inl (Error ''no resolver'')"
    by (simp add: noResolverExt_def)
  have one: "Update ?ext demoInstaller demoConfig emptyState =
       (Exited, emit (Die ''Failed to create a resolver: %s'' [errorText (Error ''no resolver'')]) emptyState)"
    using Update_resolution_failure_fatal[where ext = ?ext and st = emptyState
        and err = "Error ''no resolver''" and i = demoInstaller and conf = demoConfig] r
    by blast
  have r2: "NewResolver demoExt ''.'' (world emptyState) = Inr ()"
    by (simp add: demoExt_def)
  have walk: "allPackages demoExt (Imports brokenConfig) () (NotFound demoExt (updateHandler demoExt demoInstaller))
        (OnGopath (updateHandler demoExt demoInstaller)) (emit (Info ''Resolving imports'' []) emptyState) =
      (([], Some (Error ''fetch failed'')),
        \<lparr>world = [],
         trace = [Info ''Resolving imports'' [],
                  Info ''Fetching %s into %s'' [''example.com/broken'', ''vendor''],
                  CallVcsGet (newDependency ''example.com/broken'' []) ''vendor/example.com/broken''
                    ''/home/glide'' False False False]\<rparr>)"
    by (simp add: allPackages_def brokenConfig_def demoExt_def demoJoin_def NotFound_def
        updateHandler_def demoInstaller_def callVcsGet_def emit_def emptyState_def
        newDependency_def Let_def)
  have two: "Update demoExt demoInstaller brokenConfig emptyState =
       (Exited, emit (Die ''Failed to retrieve a list of dependencies: %s'' [errorText (Error ''fetch failed'')])
        \<lparr>world = [],
         trace = [Info ''Resolving imports'' [],
                  Info ''Fetching %s into %s'' [''example.com/broken'', ''vendor''],
                  CallVcsGet (newDependency ''example.com/broken'' []) ''vendor/example.com/broken''
                    ''/home/glide'' False False False]\<rparr>)"
    using Update_resolution_failure_fatal[where ext = demoExt and st = emptyState and res = "()"
        and conf = brokenConfig and i = demoInstaller and packages = "[]"
        and err = "Error ''fetch failed''"] r2 walk
    by blast
  show ?thesis
    using r one two by (simp add: emit_def emptyState_def)
qed

text \<open>
  Claim C10. Every dependency that \<open>depsFromPackages\<close> returns has the empty reference,
  and every entry of a lock record that \<open>Update\<close> returns has the empty version.
\<close>

theorem Update_lock_references_empty:
  "(\<forall>d \<in> set (depsFromPackages n pkgs). Reference d = [])
   \<and> (Update ext i conf st = (Returned (Some lf, None), st') \<longrightarrow>
        (\<forall>l \<in> set (LockfileImports lf @ LockfileDevImports lf). Version l = []))"
proof (intro conjI impI)
  show a: "\<forall>d \<in> set (depsFromPackages n pkgs). Reference d = []" for n pkgs
    by (auto simp: depsFromPackages_eq newDependency_def)
  assume "Update ext i conf st = (Returned (Some lf, None), st')"
  then have "fst (Update ext i conf st) = Returned (Some lf, None)" by simp
  then obtain packages hash where
    "lf = NewLockfile (depsFromPackages (NormalizeName ext) packages) hash"
    by (auto simp: fst_Update split: sum.splits prod.splits option.splits)
  then show "\<forall>l \<in> set (LockfileImports lf @ LockfileDevImports lf). Version l = []"
    using a[of "NormalizeName ext" packages]
    by (auto simp: NewLockfile_def dependencyLock_def)
qed

lemma demo_update_run:
  "fst (Update demoExt demoInstaller demoConfig emptyState) =
     Returned (Some \<lparr>Hash = ''example.com/app'',
                     LockfileImports =
                       [\<lparr>LockName = ''example.com/a'', Version = [], LockRepository = [],
                         LockVcsType = [], LockSubpackages = [''sub1''], LockArch = [], LockOs = []\<rparr>,
                        \<lparr>LockName = ''example.com/b'', Version = [], LockRepository = [],
                         LockVcsType = [], LockSubpackages = [], LockArch = [], LockOs = []\<rparr>],
                     LockfileDevImports = []\<rparr>, None)"
  by (simp add: fst_Update allPackages_def demoConfig_def demoExt_def demoJoin_def NotFound_def
        updateHandler_def demoInstaller_def callVcsGet_def emit_def emptyState_def newDependency_def Let_def
        TrimPrefix_def depsFromPackages_eq suffixesOf_def specNormalizeName_def
        NewLockfile_def dependencyLock_def)

theorem Update_lock_references_empty_witness:
  "map Reference (depsFromPackages specNormalizeName [''example.com/a/sub1'', ''example.com/b''])
     = [[], []]
   \<and> fst (Update demoExt demoInstaller demoConfig emptyState) =
     Returned (Some \<lparr>Hash = ''example.com/app'',
                     LockfileImports =
                       [\<lparr>LockName = ''example.com/a'', Version = [], LockRepository = [],
                         LockVcsType = [], LockSubpackages = [''sub1''], LockArch = [], LockOs = []\<rparr>,
                        \<lparr>LockName = ''example.com/b'', Version = [], LockRepository = [],
                         LockVcsType = [], LockSubpackages = [], LockArch = [], LockOs = []\<rparr>],
                     LockfileDevImports = []\<rparr>, None)"
proof -
  let ?lf = "\<lparr>Hash = ''example.com/app'',
                     LockfileImports =
                       [\<lparr>LockName = ''example.com/a'', Version = [], LockRepository = [],
                         LockVcsType = [], LockSubpackages = [''sub1''], LockArch = [], LockOs = []\<rparr>,
                        \<lparr>LockName = ''example.com/b'', Version = [], LockRepository = [],
                         LockVcsType = [], LockSubpackages = [], LockArch = [], LockOs = []\<rparr>],
                     LockfileDevImports = []\<rparr>"
  let ?ds = "depsFromPackages specNormalizeName [''example.com/a/sub1'', ''example.com/b'']"
  have run: "Update demoExt demoInstaller demoConfig emptyState =
             (Returned (Some ?lf, None), snd (Update demoExt demoInstaller demoConfig emptyState))"
    using demo_update_run by (simp add: prod_eq_iff)
  note t = Update_lock_references_empty[where n = specNormalizeName
      and pkgs = "[''example.com/a/sub1'', ''example.com/b'']" and ext = demoExt
      and i = demoInstaller and conf = demoConfig and st = emptyState and lf = ?lf
      and st' = "snd (Update demoExt demoInstaller demoConfig emptyState)"]
  from t have refs: "\<forall>d \<in> set ?ds. Reference d = []"
    by (rule conjunct1)
  have len: "length ?ds = 2"
    by (simp add: depsFromPackages_eq specNormalizeName_def)
  have "map Reference ?ds = replicate (length ?ds) []"
    using refs by (simp add: map_replicate_const[symmetric] cong: map_cong)
  then have "map Reference ?ds = [[], []]"
    unfolding len by (simp add: numeral_2_eq_2)
  then show ?thesis using demo_update_run by simp
qed

end
